theory Spec2Isabelle
  imports Complex_Main "HOL-Library.Log_Nat"
begin

section \<open>Time and calendar of the host\<close>

text \<open>
  An instant is the number of milliseconds since 1970-01-01T00:00:00Z, the value a
  JavaScript \<^verbatim>\<open>Date\<close> holds. A calendar date (the \<^verbatim>\<open>DATE\<close> column
  \<^verbatim>\<open>completed_date\<close>, which the client sees as the text \<^verbatim>\<open>YYYY-MM-DD\<close>) is
  represented by its day number, the count of days since 1970-01-01: two such texts are
  equal exactly when their day numbers are, and \<^verbatim>\<open>new Date('YYYY-MM-DD')\<close>
  is midnight UTC of that day.

  The host supplies the clock and the local time zone adjustment \<open>LocalTZA\<close>, as the
  ECMAScript standard has it, in milliseconds: \<open>LocalTZA h t True\<close> is the offset of local
  time from UTC at the UTC instant \<open>t\<close>, and \<open>LocalTZA h l False\<close> the offset in effect at
  the local time \<open>l\<close> (a local time that a transition repeats or skips is read with the
  offset before the transition). A zone without daylight saving has one offset for both.
  One request reads the clock once.
\<close>

type_synonym instant = int
type_synonym iso_date = int

record host =
  now :: instant
  LocalTZA :: "int \<Rightarrow> bool \<Rightarrow> int"

definition msPerDay :: int where
  "msPerDay = 86400000"

definition toISODate :: "instant \<Rightarrow> iso_date" where
  \<comment> \<open>\<^verbatim>\<open>d.toISOString().split('T')[0]\<close>: the UTC calendar date of an instant\<close>
  "toISODate t = t div msPerDay"

definition getTime :: "iso_date \<Rightarrow> instant" where
  \<comment> \<open>\<^verbatim>\<open>new Date(s).getTime()\<close> for a date-only text\<close>
  "getTime d = d * msPerDay"

definition LocalTime :: "host \<Rightarrow> instant \<Rightarrow> int" where
  "LocalTime h t = t + LocalTZA h t True"

definition UTC :: "host \<Rightarrow> int \<Rightarrow> instant" where
  \<comment> \<open>the instant of a local time\<close>
  "UTC h l = l - LocalTZA h l False"

definition localDay :: "host \<Rightarrow> instant \<Rightarrow> int" where
  \<comment> \<open>the local day number of an instant\<close>
  "localDay h t = LocalTime h t div msPerDay"

definition civil_from_days :: "int \<Rightarrow> int \<times> int \<times> int" where
  \<comment> \<open>year, month (1..12) and day of the month of a day number, proleptic Gregorian;
      the count runs in years that start on 1 March, in cycles of 400, 100, 4 and 1 years\<close>
  "civil_from_days z0 =
     (let z = z0 + 719468;
          n400 = z div 146097;
          r400 = z mod 146097;
          n100 = min 3 (r400 div 36524);
          r100 = r400 - n100 * 36524;
          n4 = r100 div 1461;
          r4 = r100 mod 1461;
          n1 = min 3 (r4 div 365);
          doy = r4 - n1 * 365;
          mp = (5 * doy + 2) div 153;
          d = doy - (153 * mp + 2) div 5 + 1;
          m = (if mp < 10 then mp + 3 else mp - 9);
          y = n400 * 400 + n100 * 100 + n4 * 4 + n1 + (if m \<le> 2 then 1 else 0)
      in (y, m, d))"

definition days_from_civil :: "int \<Rightarrow> int \<Rightarrow> int \<Rightarrow> int" where
  \<comment> \<open>day number of year \<open>y0\<close>, month \<open>m\<close> (1..12), day \<open>d\<close>\<close>
  "days_from_civil y0 m d =
     (let y = (if m \<le> 2 then y0 - 1 else y0);
          era = y div 400;
          yoe = y mod 400;
          doy = (153 * (if m > 2 then m - 3 else m + 9) + 2) div 5 + d - 1;
          doe = yoe * 365 + yoe div 4 - yoe div 100 + doy
      in era * 146097 + doe - 719468)"

definition getFullYear :: "host \<Rightarrow> instant \<Rightarrow> int" where
  "getFullYear h t = fst (civil_from_days (localDay h t))"

definition getMonth :: "host \<Rightarrow> instant \<Rightarrow> int" where
  \<comment> \<open>0 = January\<close>
  "getMonth h t = fst (snd (civil_from_days (localDay h t))) - 1"

definition getDate :: "host \<Rightarrow> instant \<Rightarrow> int" where
  "getDate h t = snd (snd (civil_from_days (localDay h t)))"

definition getDay :: "host \<Rightarrow> instant \<Rightarrow> int" where
  \<comment> \<open>0 = Sunday; 1970-01-01 was a Thursday\<close>
  "getDay h t = (localDay h t + 4) mod 7"

definition getHours :: "host \<Rightarrow> instant \<Rightarrow> int" where
  "getHours h t = (LocalTime h t mod msPerDay) div 3600000"

definition MakeDay :: "int \<Rightarrow> int \<Rightarrow> int \<Rightarrow> int" where
  \<comment> \<open>the day number of day \<open>dt\<close> of month \<open>m\<close> (0 = January) of year \<open>y\<close>: the first of
      the month, found by its year and month, plus \<open>dt - 1\<close>, so that a day outside the
      month rolls over into the neighbouring months\<close>
  "MakeDay y m dt = days_from_civil (y + m div 12) (m mod 12 + 1) 1 + dt - 1"

definition setDate :: "host \<Rightarrow> instant \<Rightarrow> int \<Rightarrow> instant" where
  \<comment> \<open>\<^verbatim>\<open>d.setDate(v)\<close>: in local time, the year, month and time of day of \<open>t\<close> with the day
      of the month \<open>v\<close>; the result is the instant of that local time\<close>
  "setDate h t v =
     UTC h (MakeDay (getFullYear h t) (getMonth h t) v * msPerDay + LocalTime h t mod msPerDay)"

definition setHours0 :: "host \<Rightarrow> instant \<Rightarrow> instant" where
  \<comment> \<open>\<^verbatim>\<open>d.setHours(0, 0, 0, 0)\<close>: the instant of 00:00 local time on the local day of \<open>t\<close>\<close>
  "setHours0 h t = UTC h (localDay h t * msPerDay + 0)"

definition newDateYMD :: "host \<Rightarrow> int \<Rightarrow> int \<Rightarrow> int \<Rightarrow> instant" where
  \<comment> \<open>\<^verbatim>\<open>new Date(y, m, d)\<close>: the instant of 00:00 local time, month counted from 0\<close>
  "newDateYMD h y m d = UTC h (MakeDay y m d * msPerDay + 0)"

section \<open>The backend: tables, owner filter, failing requests\<close>

record row =
  row_id :: string
  user_id :: string
  created_at :: instant

record habit_log = row +
  task_id :: string
  completed_date :: iso_date

record task = row +
  title :: string

datatype mode = work | break

record focus_session = row +
  duration_minutes :: int
  mode :: mode
  completed_at :: instant

datatype table = HabitLogs | Tasks | FocusSessions

text \<open>
  A request to a table either fails with the service's message or answers with the rows
  that pass the filters, in table order. \<open>failing\<close> says which tables fail.
\<close>

record backend =
  habit_logs :: "habit_log list"
  tasks :: "task list"
  focus_sessions :: "focus_session list"
  failing :: "table \<Rightarrow> string option"

record 'a response =
  data :: "'a list option"
  error :: "string option"

definition select_where :: "string option \<Rightarrow> 'a list \<Rightarrow> ('a \<Rightarrow> bool) \<Rightarrow> 'a response" where
  "select_where failure rows keep =
     (case failure of
        Some msg \<Rightarrow> \<lparr>data = None, error = Some msg\<rparr>
      | None \<Rightarrow> \<lparr>data = Some (filter keep rows), error = None\<rparr>)"

datatype query_error =
  HeatmapError string
| StreakError string
| MonthlyError string
| FocusStatsError string
| ChartError string

section \<open>stats-service\<close>

subsection \<open>getHabitHeatmap\<close>

text \<open>
  \<open>days\<close> is a count of days (the page asks for 70), a natural number. The loop runs
  \<open>i\<close> from \<open>days\<close> down to 0 and appends one cell per round.
\<close>

record heatmap_cell =
  date :: iso_date
  count :: nat
  level :: nat

definition level_of :: "nat \<Rightarrow> nat" where
  "level_of c =
     (let l0 = 0;
          l1 = (if c \<ge> 1 then 1 else l0);
          l2 = (if c \<ge> 3 then 2 else l1);
          l3 = (if c \<ge> 5 then 3 else l2)
      in l3)"

definition countMap_set :: "(iso_date \<rightharpoonup> nat) \<Rightarrow> ('z habit_log_scheme) \<Rightarrow> (iso_date \<rightharpoonup> nat)" where
  "countMap_set m entry =
     m(completed_date entry \<mapsto>
         (case m (completed_date entry) of None \<Rightarrow> 0 | Some c \<Rightarrow> c) + 1)"

definition countMap_of :: "('z habit_log_scheme) list \<Rightarrow> (iso_date \<rightharpoonup> nat)" where
  "countMap_of logs = fold (\<lambda>entry m. countMap_set m entry) logs Map.empty"

definition heatmap_cell_at :: "host \<Rightarrow> (iso_date \<rightharpoonup> nat) \<Rightarrow> nat \<Rightarrow> heatmap_cell" where
  "heatmap_cell_at h countMap i =
     (let d = setDate h (now h) (getDate h (now h) - int i);
          dateStr = toISODate d;
          c = (case countMap dateStr of None \<Rightarrow> 0 | Some n \<Rightarrow> n)
      in \<lparr>date = dateStr, count = c, level = level_of c\<rparr>)"

definition getHabitHeatmap ::
  "host \<Rightarrow> backend \<Rightarrow> string \<Rightarrow> nat \<Rightarrow> query_error + heatmap_cell list" where
  "getHabitHeatmap h b userId days =
     (let startDate = setDate h (now h) (getDate h (now h) - int days);
          resp = select_where (failing b HabitLogs) (habit_logs b)
                   (\<lambda>r. user_id r = userId \<and> completed_date r \<ge> toISODate startDate)
      in case error resp of
           Some msg \<Rightarrow> Inl (HeatmapError msg)
         | None \<Rightarrow>
             (let countMap = countMap_of (case data resp of None \<Rightarrow> [] | Some rows \<Rightarrow> rows)
              in Inr (map (heatmap_cell_at h countMap) (rev [0..<Suc days]))))"

subsection \<open>getStreakData\<close>

text \<open>
  \<open>streak_of_dates\<close> is the body of \<open>getStreakData\<close> from the deduplication on, for the
  non-empty list of dates the request answered with. The quotient of two differences of
  midnights by the milliseconds of a day is taken exactly: a difference of instants is a
  whole number, so the double quotient equals 1 exactly when the exact quotient does.
\<close>

record streak =
  currentStreak :: nat
  maxStreak :: nat

definition set_add :: "'a list \<Rightarrow> 'a \<Rightarrow> 'a list" where
  \<comment> \<open>a JavaScript \<^verbatim>\<open>Set\<close> keeps the first insertion of each element, in insertion order\<close>
  "set_add acc x = (if x \<in> set acc then acc else acc @ [x])"

definition new_Set :: "'a list \<Rightarrow> 'a list" where
  "new_Set xs = fold (\<lambda>x acc. set_add acc x) xs []"

definition sort_newest_first :: "iso_date list \<Rightarrow> iso_date list" where
  \<comment> \<open>\<^verbatim>\<open>.sort((a, b) => new Date(b).getTime() - new Date(a).getTime())\<close>\<close>
  "sort_newest_first ds = sort_key (\<lambda>d. - getTime d) ds"

definition diff_days :: "iso_date \<Rightarrow> iso_date \<Rightarrow> rat" where
  "diff_days prevDate currDate = of_int (getTime prevDate - getTime currDate) / 86400000"

fun current_loop :: "iso_date list \<Rightarrow> nat \<Rightarrow> nat" where
  "current_loop (prevDate # currDate # rest) cur =
     (if diff_days prevDate currDate = 1 then current_loop (currDate # rest) (cur + 1)
      else cur)"
| "current_loop _ cur = cur"

fun max_loop :: "iso_date list \<Rightarrow> nat \<Rightarrow> nat \<Rightarrow> nat" where
  "max_loop (prevDate # currDate # rest) mx tempStreak =
     (if diff_days prevDate currDate = 1
      then max_loop (currDate # rest) (max mx (tempStreak + 1)) (tempStreak + 1)
      else max_loop (currDate # rest) mx 1)"
| "max_loop _ mx tempStreak = mx"

definition streak_of_dates :: "host \<Rightarrow> iso_date list \<Rightarrow> streak" where
  "streak_of_dates h dates =
     (let uniqueDates = sort_newest_first (new_Set dates);
          today = toISODate (now h);
          yesterday = toISODate (now h - 86400000);
          cur =
            (case uniqueDates of
               [] \<Rightarrow> 0
             | d0 # _ \<Rightarrow>
                 if d0 = today \<or> d0 = yesterday then current_loop uniqueDates 1 else 0);
          mx = max_loop uniqueDates 0 1
      in \<lparr>currentStreak = cur, maxStreak = max mx cur\<rparr>)"

definition getStreakData :: "host \<Rightarrow> backend \<Rightarrow> string \<Rightarrow> query_error + streak" where
  "getStreakData h b userId =
     (let resp = select_where (failing b HabitLogs) (habit_logs b) (\<lambda>r. user_id r = userId);
          \<comment> \<open>\<^verbatim>\<open>.order('completed_date', { ascending: false })\<close>\<close>
          ordered = map_option (\<lambda>rows. rev (sort_key completed_date rows)) (data resp)
      in case error resp of
           Some msg \<Rightarrow> Inl (StreakError msg)
         | None \<Rightarrow>
             (case ordered of
                None \<Rightarrow> Inr \<lparr>currentStreak = 0, maxStreak = 0\<rparr>
              | Some rows \<Rightarrow>
                  if length rows = 0 then Inr \<lparr>currentStreak = 0, maxStreak = 0\<rparr>
                  else Inr (streak_of_dates h (map completed_date rows))))"

subsection \<open>getMonthlyStats\<close>

text \<open>
  The rate is computed in double-precision floating point. A double is modelled by the
  rational it denotes; every arithmetic operation rounds the exact result to the nearest
  number with a 53-bit significand, ties to the even significand. The exponent range is
  not bounded: the operands here are array lengths and a day of the month, far from
  overflow and from the subnormal numbers.
\<close>

definition pow2 :: "int \<Rightarrow> rat" where
  "pow2 e = (if 0 \<le> e then 2 ^ nat e else 1 / 2 ^ nat (- e))"

definition floor_log2 :: "rat \<Rightarrow> int" where
  \<comment> \<open>for \<open>x > 0\<close>: the \<open>e\<close> with \<open>2 ^ e \<le> x < 2 ^ (e + 1)\<close>\<close>
  "floor_log2 x =
     (let e0 = bitlen (fst (quotient_of x)) - bitlen (snd (quotient_of x))
      in if pow2 e0 \<le> x then e0 else e0 - 1)"

definition round_half_even :: "rat \<Rightarrow> int" where
  "round_half_even q =
     (let n = \<lfloor>q\<rfloor>; f = q - of_int n
      in if f < 1 / 2 then n else if f > 1 / 2 then n + 1 else if even n then n else n + 1)"

definition to_double :: "rat \<Rightarrow> rat" where
  "to_double x =
     (if x = 0 then 0
      else let a = \<bar>x\<bar>;
               ulp = pow2 (floor_log2 a - 52);
               r = of_int (round_half_even (a / ulp)) * ulp
           in if x < 0 then - r else r)"

definition fdiv :: "rat \<Rightarrow> rat \<Rightarrow> rat" where
  "fdiv x y = to_double (x / y)"

definition fmul :: "rat \<Rightarrow> rat \<Rightarrow> rat" where
  "fmul x y = to_double (x * y)"

definition Math_round :: "rat \<Rightarrow> int" where
  \<comment> \<open>the nearest integer, a tie going up\<close>
  "Math_round x = \<lfloor>x + 1 / 2\<rfloor>"

record monthly_stats =
  completed :: nat
  total :: int
  rate :: int

definition getMonthlyStats :: "host \<Rightarrow> backend \<Rightarrow> string \<Rightarrow> query_error + monthly_stats" where
  "getMonthlyStats h b userId =
     (let monthStart = toISODate (newDateYMD h (getFullYear h (now h)) (getMonth h (now h)) 1);
          resp = select_where (failing b HabitLogs) (habit_logs b)
                   (\<lambda>r. user_id r = userId \<and> completed_date r \<ge> monthStart)
      in case error resp of
           Some msg \<Rightarrow> Inl (MonthlyError msg)
         | None \<Rightarrow>
             (let done = (case data resp of None \<Rightarrow> 0 | Some rows \<Rightarrow> length rows);
                  daysElapsed = getDate h (now h);
                  tasksResp = select_where (failing b Tasks) (tasks b) (\<lambda>r. user_id r = userId);
                  taskCount = (case data tasksResp of None \<Rightarrow> 0 | Some ts \<Rightarrow> length ts);
                  expected = int taskCount * daysElapsed;
                  r = (if expected > 0
                       then Math_round (fmul (fdiv (of_nat done) (of_int expected)) 100)
                       else 0)
              in Inr \<lparr>completed = done, total = expected, rate = r\<rparr>))"

section \<open>focus-service\<close>

subsection \<open>getTodayFocusStats\<close>

record focus_stats =
  completedCount :: nat
  totalMinutes :: int

definition getTodayFocusStats :: "host \<Rightarrow> backend \<Rightarrow> string \<Rightarrow> query_error + focus_stats" where
  "getTodayFocusStats h b userId =
     (let todayStart = setHours0 h (now h);
          resp = select_where (failing b FocusSessions) (focus_sessions b)
                   (\<lambda>s. user_id s = userId \<and> mode s = work \<and> completed_at s \<ge> todayStart)
      in case error resp of
           Some msg \<Rightarrow> Inl (FocusStatsError msg)
         | None \<Rightarrow>
             (let sessions = (case data resp of None \<Rightarrow> [] | Some rows \<Rightarrow> rows)
              in Inr \<lparr>completedCount = length sessions,
                      totalMinutes = foldl (\<lambda>sum s. sum + duration_minutes s) 0 sessions\<rparr>))"

subsection \<open>getFocusChartData\<close>

text \<open>
  The four periods are the one-character texts for day, week, month and year. Texts
  outside ASCII are held as their UTF-8 bytes; the code only concatenates and compares
  them. \<open>zhou\<close> is the character U+5468 (week) that the weekday and week-of-month
  labels share.
\<close>

datatype period = Day | Week | Month | Year

definition zhou :: string where
  "zhou = [CHR 0xE5, CHR 0x91, CHR 0xA8]"

definition zhou_ri :: string where
  \<comment> \<open>Sunday: U+5468 U+65E5\<close>
  "zhou_ri = zhou @ [CHR 0xE6, CHR 0x97, CHR 0xA5]"

definition zhou_yi :: string where
  \<comment> \<open>Monday: U+5468 U+4E00\<close>
  "zhou_yi = zhou @ [CHR 0xE4, CHR 0xB8, CHR 0x80]"

definition zhou_er :: string where
  \<comment> \<open>Tuesday: U+5468 U+4E8C\<close>
  "zhou_er = zhou @ [CHR 0xE4, CHR 0xBA, CHR 0x8C]"

definition zhou_san :: string where
  \<comment> \<open>Wednesday: U+5468 U+4E09\<close>
  "zhou_san = zhou @ [CHR 0xE4, CHR 0xB8, CHR 0x89]"

definition zhou_si :: string where
  \<comment> \<open>Thursday: U+5468 U+56DB\<close>
  "zhou_si = zhou @ [CHR 0xE5, CHR 0x9B, CHR 0x9B]"

definition zhou_wu :: string where
  \<comment> \<open>Friday: U+5468 U+4E94\<close>
  "zhou_wu = zhou @ [CHR 0xE4, CHR 0xBA, CHR 0x94]"

definition zhou_liu :: string where
  \<comment> \<open>Saturday: U+5468 U+516D\<close>
  "zhou_liu = zhou @ [CHR 0xE5, CHR 0x85, CHR 0xAD]"

definition days :: "string list" where
  "days = [zhou_ri, zhou_yi, zhou_er, zhou_san, zhou_si, zhou_wu, zhou_liu]"

definition quarters :: "string list" where
  "quarters = [''Q1'', ''Q2'', ''Q3'', ''Q4'']"

fun nat_toString :: "nat \<Rightarrow> string" where
  "nat_toString n =
     (if n < 10 then [''0123456789'' ! n]
      else nat_toString (n div 10) @ [''0123456789'' ! (n mod 10)])"

definition toString :: "int \<Rightarrow> string" where
  "toString i = (if i < 0 then ''-'' @ nat_toString (nat (- i)) else nat_toString (nat i))"

definition padStart2 :: "string \<Rightarrow> string" where
  \<comment> \<open>\<^verbatim>\<open>s.padStart(2, '0')\<close>\<close>
  "padStart2 s = replicate (2 - length s) (CHR ''0'') @ s"

definition startDate :: "host \<Rightarrow> period \<Rightarrow> instant" where
  "startDate h p =
     (case p of
        Day \<Rightarrow> setHours0 h (now h)
      | Week \<Rightarrow> setHours0 h (setDate h (now h) (getDate h (now h) - 6))
      | Month \<Rightarrow> newDateYMD h (getFullYear h (now h)) (getMonth h (now h)) 1
      | Year \<Rightarrow> newDateYMD h (getFullYear h (now h)) 0 1)"

definition bucket_key :: "host \<Rightarrow> period \<Rightarrow> instant \<Rightarrow> string" where
  "bucket_key h p t =
     (case p of
        Day \<Rightarrow> padStart2 (toString (getHours h t)) @ '':00''
      | Week \<Rightarrow> days ! nat (getDay h t)
      | Month \<Rightarrow> toString \<lceil>(of_int (getDate h t) :: rat) / 7\<rceil> @ zhou
      | Year \<Rightarrow> quarters ! nat \<lfloor>(of_int (getMonth h t) :: rat) / 3\<rfloor>)"

text \<open>
  A JavaScript \<^verbatim>\<open>Map\<close> iterates in the order in which its keys were first set:
  an association list, a new key appended, an old key updated in place.
\<close>

primrec map_set :: "('k \<times> 'v) list \<Rightarrow> 'k \<Rightarrow> 'v \<Rightarrow> ('k \<times> 'v) list" where
  "map_set [] k v = [(k, v)]"
| "map_set (e # es) k v = (if fst e = k then (k, v) # es else e # map_set es k v)"

definition map_get :: "('k \<times> 'v) list \<Rightarrow> 'k \<Rightarrow> 'v option" where
  "map_get m k = map_of m k"

definition aggregate_step ::
  "host \<Rightarrow> period \<Rightarrow> ('z focus_session_scheme) \<Rightarrow> (string \<times> int) list \<Rightarrow> (string \<times> int) list" where
  "aggregate_step h p session aggregated =
     (let key = bucket_key h p (completed_at session)
      in map_set aggregated key
           ((case map_get aggregated key of None \<Rightarrow> 0 | Some v \<Rightarrow> v) + duration_minutes session))"

record chart_point =
  name :: string
  val :: int

definition getFocusChartData ::
  "host \<Rightarrow> backend \<Rightarrow> string \<Rightarrow> period \<Rightarrow> query_error + chart_point list" where
  "getFocusChartData h b userId p =
     (let resp = select_where (failing b FocusSessions) (focus_sessions b)
                   (\<lambda>s. user_id s = userId \<and> mode s = work \<and> completed_at s \<ge> startDate h p)
      in case error resp of
           Some msg \<Rightarrow> Inl (ChartError msg)
         | None \<Rightarrow>
             (let sessions = (case data resp of None \<Rightarrow> [] | Some rows \<Rightarrow> rows);
                  aggregated = fold (aggregate_step h p) sessions []
              in Inr (map (\<lambda>(n, v). \<lparr>name = n, val = v\<rparr>) aggregated)))"

section \<open>The statistics page\<close>

definition zero_points :: "string list \<Rightarrow> chart_point list" where
  "zero_points names = map (\<lambda>n. \<lparr>name = n, val = 0\<rparr>) names"

definition getDefaultChartData :: "period \<Rightarrow> chart_point list" where
  "getDefaultChartData p =
     (case p of
        Day \<Rightarrow> [\<lparr>name = ''00:00'', val = 0\<rparr>, \<lparr>name = ''06:00'', val = 0\<rparr>,
                \<lparr>name = ''12:00'', val = 0\<rparr>, \<lparr>name = ''18:00'', val = 0\<rparr>,
                \<lparr>name = ''23:59'', val = 0\<rparr>]
      | Week \<Rightarrow> zero_points [zhou_yi, zhou_er, zhou_san, zhou_si, zhou_wu, zhou_liu, zhou_ri]
      | Month \<Rightarrow> zero_points [''1'' @ zhou, ''2'' @ zhou, ''3'' @ zhou, ''4'' @ zhou]
      | Year \<Rightarrow> zero_points [''Q1'', ''Q2'', ''Q3'', ''Q4''])"

definition displayed_chart :: "chart_point list \<Rightarrow> period \<Rightarrow> chart_point list" where
  \<comment> \<open>\<^verbatim>\<open>chart.length > 0 ? chart : getDefaultChartData(activePeriod)\<close>\<close>
  "displayed_chart chart p = (if length chart > 0 then chart else getDefaultChartData p)"

section \<open>Vocabulary of the properties\<close>

definition owner_dates :: "backend \<Rightarrow> string \<Rightarrow> iso_date set" where
  \<comment> \<open>the set of completion dates of an owner\<close>
  "owner_dates b userId = completed_date ` {r \<in> set (habit_logs b). user_id r = userId}"

definition local_midnight :: "host \<Rightarrow> int \<Rightarrow> instant" where
  \<comment> \<open>the instant at which the local day of number \<open>day\<close> begins\<close>
  "local_midnight h day = day * msPerDay - LocalTZA h (day * msPerDay) False"

definition first_day :: "host \<Rightarrow> period \<Rightarrow> int" where
  \<comment> \<open>the local day on which the period begins: today; the local day of the instant six
      days before now at the same local time of day; the first of the current month; the
      first of January of the current year\<close>
  "first_day h p =
     (case p of
        Day \<Rightarrow> localDay h (now h)
      | Week \<Rightarrow> localDay h (UTC h (LocalTime h (now h) - 6 * msPerDay))
      | Month \<Rightarrow> localDay h (now h) - (getDate h (now h) - 1)
      | Year \<Rightarrow> days_from_civil (getFullYear h (now h)) 1 1)"

definition period_start :: "host \<Rightarrow> period \<Rightarrow> instant" where
  \<comment> \<open>the lower time bound of the period: local midnight of its first day\<close>
  "period_start h p = local_midnight h (first_day h p)"

definition chart_sessions :: "host \<Rightarrow> backend \<Rightarrow> string \<Rightarrow> period \<Rightarrow> focus_session list" where
  \<comment> \<open>the owner's work-mode sessions at or after the lower time bound of the period\<close>
  "chart_sessions h b userId p =
     filter (\<lambda>s. user_id s = userId \<and> mode s = work \<and> completed_at s \<ge> period_start h p)
       (focus_sessions b)"

definition today_sessions :: "host \<Rightarrow> backend \<Rightarrow> string \<Rightarrow> focus_session list" where
  \<comment> \<open>the owner's work-mode sessions completed at or after today's local midnight\<close>
  "today_sessions h b userId =
     filter (\<lambda>s. user_id s = userId \<and> mode s = work
                 \<and> completed_at s \<ge> local_midnight h (localDay h (now h)))
       (focus_sessions b)"

definition exact_percent :: "nat \<Rightarrow> int \<Rightarrow> rat" where
  \<comment> \<open>the completed count as a percentage of the total, without rounding\<close>
  "exact_percent done expected = of_nat done / of_int expected * 100"

definition habit_count :: "backend \<Rightarrow> string \<Rightarrow> nat" where
  \<comment> \<open>the number of the owner's tasks the second request of \<open>getMonthlyStats\<close> answers with;
      its failure is not looked at and counts as no task\<close>
  "habit_count b userId =
     (case failing b Tasks of
        None \<Rightarrow> length (filter (\<lambda>r. user_id r = userId) (tasks b))
      | Some msg \<Rightarrow> 0)"

section \<open>Example inputs\<close>

text \<open>
  The host of most examples: 2026-11-03, 21:30 local time at UTC+8 (13:30 UTC), a Tuesday.
  Day 20760 is 2026-11-03.
\<close>

definition fixed_zone :: "int \<Rightarrow> int \<Rightarrow> bool \<Rightarrow> int" where
  \<comment> \<open>a zone without daylight saving\<close>
  "fixed_zone offset t isUTC = offset"

definition demo_host :: host where
  "demo_host = \<lparr>now = 1793712600000, LocalTZA = fixed_zone 28800000\<rparr>"

text \<open>
  New York in 2026: daylight time (UTC-4) from 8 March 07:00 UTC to 1 November 06:00 UTC,
  standard time (UTC-5) otherwise. The host \<open>new_york_host\<close> has the clock at
  2026-11-03T00:30Z, which is 19:30 on 2 November there.
\<close>

definition new_york :: "int \<Rightarrow> bool \<Rightarrow> int" where
  "new_york t isUTC =
     (if isUTC
      then (if 1772953200000 \<le> t \<and> t < 1793512800000 then - 14400000 else - 18000000)
      else (if 1772953200000 - 14400000 \<le> t \<and> t < 1793512800000 - 14400000
            then - 14400000 else - 18000000))"

definition new_york_host :: host where
  "new_york_host = \<lparr>now = 1793665800000, LocalTZA = new_york\<rparr>"

definition eighth_host :: host where
  \<comment> \<open>2026-11-08, 12:00 UTC, on a host in UTC\<close>
  "eighth_host = \<lparr>now = 1794139200000, LocalTZA = fixed_zone 0\<rparr>"

definition healthy :: "table \<Rightarrow> string option" where
  "healthy t = None"

definition mk_log :: "string \<Rightarrow> string \<Rightarrow> iso_date \<Rightarrow> habit_log" where
  "mk_log uid tid d =
     \<lparr>row_id = tid, user_id = uid, created_at = getTime d, task_id = tid, completed_date = d\<rparr>"

definition mk_task :: "string \<Rightarrow> string \<Rightarrow> task" where
  "mk_task uid tid = \<lparr>row_id = tid, user_id = uid, created_at = 0, title = tid\<rparr>"

definition mk_session :: "string \<Rightarrow> instant \<Rightarrow> int \<Rightarrow> mode \<Rightarrow> focus_session" where
  "mk_session uid t minutes m =
     \<lparr>row_id = ''s'', user_id = uid, created_at = t, duration_minutes = minutes, mode = m,
      completed_at = t\<rparr>"

definition heat_backend :: backend where
  \<comment> \<open>owner alice: 2 completions the day before yesterday, 4 yesterday, 6 today, one long
      ago; owner bob: one three days ago\<close>
  "heat_backend =
     \<lparr>habit_logs =
        [mk_log ''alice'' ''t1'' 20758, mk_log ''alice'' ''t2'' 20758,
         mk_log ''bob'' ''t9'' 20757,
         mk_log ''alice'' ''t1'' 20759, mk_log ''alice'' ''t2'' 20759,
         mk_log ''alice'' ''t3'' 20759, mk_log ''alice'' ''t4'' 20759,
         mk_log ''alice'' ''t1'' 20760, mk_log ''alice'' ''t2'' 20760,
         mk_log ''alice'' ''t3'' 20760, mk_log ''alice'' ''t4'' 20760,
         mk_log ''alice'' ''t5'' 20760, mk_log ''alice'' ''t6'' 20760,
         mk_log ''alice'' ''t1'' 20700],
      tasks = [], focus_sessions = [], failing = healthy\<rparr>"

definition heat_cells :: "heatmap_cell list" where
  "heat_cells =
     [\<lparr>date = 20757, count = 0, level = 0\<rparr>, \<lparr>date = 20758, count = 2, level = 1\<rparr>,
      \<lparr>date = 20759, count = 4, level = 2\<rparr>, \<lparr>date = 20760, count = 6, level = 3\<rparr>]"

definition logs_backend :: "habit_log list \<Rightarrow> backend" where
  "logs_backend logs = \<lparr>habit_logs = logs, tasks = [], focus_sessions = [], failing = healthy\<rparr>"

definition dst_backend :: backend where
  \<comment> \<open>completions of alice on 30 October, twice on 1 November, and on 3 November\<close>
  "dst_backend =
     logs_backend
       [mk_log ''alice'' ''t1'' 20756, mk_log ''alice'' ''t1'' 20758, mk_log ''alice'' ''t2'' 20758,
        mk_log ''alice'' ''t1'' 20760]"

definition old_backend :: backend where
  \<comment> \<open>one completion, five days ago\<close>
  "old_backend = logs_backend [mk_log ''alice'' ''t1'' 20755]"

definition future_backend :: backend where
  \<comment> \<open>completions today and yesterday, and one dated the day after tomorrow\<close>
  "future_backend =
     logs_backend
       [mk_log ''alice'' ''t1'' 20762, mk_log ''alice'' ''t1'' 20760, mk_log ''alice'' ''t1'' 20759]"

definition run_backend :: backend where
  \<comment> \<open>today, yesterday, the day before, and five days ago; today twice\<close>
  "run_backend =
     logs_backend
       [mk_log ''alice'' ''t1'' 20758, mk_log ''alice'' ''t1'' 20760, mk_log ''alice'' ''t2'' 20760,
        mk_log ''bob'' ''t9'' 20757, mk_log ''alice'' ''t1'' 20755, mk_log ''alice'' ''t1'' 20759]"

definition sessions_backend :: "focus_session list \<Rightarrow> backend" where
  "sessions_backend ss = \<lparr>habit_logs = [], tasks = [], focus_sessions = ss, failing = healthy\<rparr>"

definition chart_backend :: backend where
  \<comment> \<open>four work sessions of 25 minutes today, at 09:10, 09:40, 14:10 and 20:10 local time\<close>
  "chart_backend =
     sessions_backend
       [mk_session ''alice'' 1793668200000 25 work, mk_session ''alice'' 1793670000000 25 work,
        mk_session ''alice'' 1793686200000 25 work, mk_session ''alice'' 1793707800000 25 work]"

definition period_backend :: backend where
  \<comment> \<open>work sessions of alice, in local time of \<open>demo_host\<close>: 2025-12-31 23:50 (1 minute),
      2026-01-01 00:00 (2), 2026-05-15 10:00 (4), 2026-10-27 23:59:59.999 (8),
      2026-10-28 00:00, a Wednesday (16), 2026-10-31 23:50, a Saturday (32),
      2026-11-01 00:00, a Sunday (64), 2026-11-02 23:50, a Monday (128),
      2026-11-03 00:00 (256) and 09:10 (512), the Tuesday of the clock; a break of alice
      at 14:10 today and a work session of bob at 09:10 today\<close>
  "period_backend =
     sessions_backend
       [mk_session ''alice'' 1767196200000 1 work, mk_session ''alice'' 1767196800000 2 work,
        mk_session ''alice'' 1778810400000 4 work, mk_session ''alice'' 1793116799999 8 work,
        mk_session ''alice'' 1793116800000 16 work, mk_session ''alice'' 1793461800000 32 work,
        mk_session ''alice'' 1793462400000 64 work, mk_session ''alice'' 1793634600000 128 work,
        mk_session ''alice'' 1793635200000 256 work, mk_session ''alice'' 1793668200000 512 work,
        mk_session ''alice'' 1793686200000 1024 break, mk_session ''bob'' 1793668200000 2048 work]"

definition unordered_backend :: backend where
  \<comment> \<open>the session of 14:10 stored before the session of 09:10\<close>
  "unordered_backend =
     sessions_backend
       [mk_session ''alice'' 1793686200000 25 work, mk_session ''alice'' 1793668200000 25 work]"

definition break_backend :: backend where
  \<comment> \<open>today: only breaks of alice, and a work session of bob\<close>
  "break_backend =
     sessions_backend
       [mk_session ''alice'' 1793668200000 5 break, mk_session ''alice'' 1793686200000 15 break,
        mk_session ''bob'' 1793686200000 25 work]"

definition empty_backend :: backend where
  "empty_backend = sessions_backend []"

definition monthly_backend :: backend where
  \<comment> \<open>two tasks of alice, each completed on 31 October and on 1, 2 and 3 November\<close>
  "monthly_backend =
     \<lparr>habit_logs =
        [mk_log ''alice'' ''t1'' 20757, mk_log ''alice'' ''t2'' 20757,
         mk_log ''alice'' ''t1'' 20758, mk_log ''alice'' ''t2'' 20758,
         mk_log ''alice'' ''t1'' 20759, mk_log ''alice'' ''t2'' 20759,
         mk_log ''alice'' ''t1'' 20760, mk_log ''alice'' ''t2'' 20760],
      tasks = [mk_task ''alice'' ''t1'', mk_task ''alice'' ''t2''],
      focus_sessions = [], failing = healthy\<rparr>"



definition rate_backend :: backend where
  \<comment> \<open>five tasks of alice; four of them completed on each of 1 to 5 November, the fifth on
      1 to 3 November: 23 completions\<close>
  "rate_backend =
     \<lparr>habit_logs =
        concat (map (\<lambda>d. map (\<lambda>t. mk_log ''alice'' t d) [''t1'', ''t2'', ''t3'', ''t4''])
                  [20758, 20759, 20760, 20761, 20762])
        @ map (mk_log ''alice'' ''t5'') [20758, 20759, 20760],
      tasks = map (mk_task ''alice'') [''t1'', ''t2'', ''t3'', ''t4'', ''t5''],
      focus_sessions = [], failing = healthy\<rparr>"

section \<open>Calendar facts\<close>

lemma yesterday_date: "toISODate (t - 86400000) = toISODate t - 1"
  using div_mult_self1 [of "86400000 :: int" t "- 1"]
  by (simp add: toISODate_def msPerDay_def)

lemma doy_bounds:
  fixes r4 :: int
  assumes r4: "0 \<le> r4" "r4 \<le> 1460"
  shows "0 \<le> r4 - min 3 (r4 div 365) * 365" "r4 - min 3 (r4 div 365) * 365 \<le> 365"
proof -
  define q where "q = r4 div 365"
  have q: "365 * q \<le> r4" "r4 < 365 * q + 365" unfolding q_def by presburger+
  then have "0 \<le> q" "q \<le> 4" using r4 by linarith+
  then have "q = 0 \<or> q = 1 \<or> q = 2 \<or> q = 3 \<or> q = 4" by linarith
  then show "0 \<le> r4 - min 3 (r4 div 365) * 365" "r4 - min 3 (r4 div 365) * 365 \<le> 365"
    unfolding q_def [symmetric] using q r4 by (elim disjE; simp)+
qed

lemma month_day_bounds:
  fixes doy :: int
  assumes "0 \<le> doy" "doy \<le> 365"
  defines "mp \<equiv> (5 * doy + 2) div 153"
  shows "0 \<le> mp \<and> mp \<le> 11 \<and> 1 \<le> doy - (153 * mp + 2) div 5 + 1
         \<and> doy - (153 * mp + 2) div 5 + 1 \<le> 31"
proof -
  have mp: "0 \<le> mp" "mp \<le> 11" using assms(1,2) unfolding mp_def by auto
  have lo: "153 * mp \<le> 5 * doy + 2" and hi: "5 * doy + 2 < 153 * mp + 153"
    unfolding mp_def by presburger+
  from mp have "mp \<in> {0,1,2,3,4,5,6,7,8,9,10,11}" by simp presburger
  then have "1 \<le> doy - (153 * mp + 2) div 5 + 1 \<and> doy - (153 * mp + 2) div 5 + 1 \<le> 31"
    using lo hi by (elim insertE emptyE) simp_all
  with mp show ?thesis by simp
qed

lemma civil_from_days_unfold:
  "civil_from_days z =
     (let r4 = ((z + 719468) mod 146097
                 - min 3 ((z + 719468) mod 146097 div 36524) * 36524) mod 1461;
          doy = r4 - min 3 (r4 div 365) * 365;
          mp = (5 * doy + 2) div 153;
          m = (if mp < 10 then mp + 3 else mp - 9)
      in ((z + 719468) div 146097 * 400
            + min 3 ((z + 719468) mod 146097 div 36524) * 100
            + ((z + 719468) mod 146097
                 - min 3 ((z + 719468) mod 146097 div 36524) * 36524) div 1461 * 4
            + min 3 (r4 div 365) + (if m \<le> 2 then 1 else 0),
          m, doy - (153 * mp + 2) div 5 + 1))"
  unfolding civil_from_days_def Let_def by (rule refl)

lemma civil_from_days_bounds:
  "1 \<le> fst (snd (civil_from_days z)) \<and> fst (snd (civil_from_days z)) \<le> 12
   \<and> 1 \<le> snd (snd (civil_from_days z)) \<and> snd (snd (civil_from_days z)) \<le> 31"
proof -
  define r4 where "r4 = ((z + 719468) mod 146097
      - min 3 ((z + 719468) mod 146097 div 36524) * 36524) mod 1461"
  define doy where "doy = r4 - min 3 (r4 div 365) * 365"
  define mp where "mp = (5 * doy + 2) div 153"
  have "r4 < 1461" unfolding r4_def by (rule pos_mod_bound) simp
  moreover have "0 \<le> r4" unfolding r4_def by (rule pos_mod_sign) simp
  ultimately have r4: "0 \<le> r4" "r4 \<le> 1460" by linarith+
  note doy = doy_bounds [OF r4, folded doy_def]
  note b = month_day_bounds [OF doy, folded mp_def]
  have m: "fst (snd (civil_from_days z)) = (if mp < 10 then mp + 3 else mp - 9)"
    unfolding civil_from_days_unfold Let_def snd_conv fst_conv mp_def doy_def r4_def
    by (rule refl)
  have d: "snd (snd (civil_from_days z)) = doy - (153 * mp + 2) div 5 + 1"
    unfolding civil_from_days_unfold Let_def snd_conv fst_conv mp_def doy_def r4_def
    by (rule refl)
  show ?thesis unfolding m d using b by (simp split: if_splits)
qed


text \<open>The two calendar functions agree: the day number of the date of a day is that day.\<close>

lemma year_of_era_days:
  fixes n100 n4 n1 :: int
  assumes "0 \<le> n100" "n100 \<le> 3" "0 \<le> n4" "n4 \<le> 24" "0 \<le> n1" "n1 \<le> 3"
  defines "yoe \<equiv> n100 * 100 + n4 * 4 + n1"
  shows "0 \<le> yoe" "yoe \<le> 399"
    "yoe * 365 + yoe div 4 - yoe div 100 = n100 * 36524 + n4 * 1461 + n1 * 365"
proof -
  show "0 \<le> yoe" "yoe \<le> 399" using assms(1-6) unfolding yoe_def by linarith+
  have "yoe = (25 * n100 + n4) * 4 + n1" unfolding yoe_def by simp
  then have "yoe div 4 = 25 * n100 + n4 + n1 div 4" by (simp only: div_mult_self3)
  moreover have "n1 div 4 = 0" using assms(5,6) by (simp add: div_pos_pos_trivial)
  ultimately have d4: "yoe div 4 = 25 * n100 + n4" by simp
  have small: "0 \<le> n4 * 4 + n1" "n4 * 4 + n1 < 100" using assms(3-6) by linarith+
  have "yoe = n100 * 100 + (n4 * 4 + n1)" unfolding yoe_def by simp
  then have "yoe div 100 = n100 + (n4 * 4 + n1) div 100" by (simp only: div_mult_self3)
  moreover have "(n4 * 4 + n1) div 100 = 0" using small by (rule div_pos_pos_trivial)
  ultimately have d100: "yoe div 100 = n100" by simp
  show "yoe * 365 + yoe div 4 - yoe div 100 = n100 * 36524 + n4 * 1461 + n1 * 365"
    unfolding d4 d100 unfolding yoe_def by (simp add: algebra_simps)
qed

lemma days_from_civil_of_civil:
  "(case civil_from_days z of (y, m, d) \<Rightarrow> days_from_civil y m d) = z"
proof -
  define r400 where "r400 = (z + 719468) mod 146097"
  define n400 where "n400 = (z + 719468) div 146097"
  define n100 where "n100 = min 3 (r400 div 36524)"
  define r100 where "r100 = r400 - n100 * 36524"
  define n4 where "n4 = r100 div 1461"
  define r4 where "r4 = r100 mod 1461"
  define n1 where "n1 = min 3 (r4 div 365)"
  define doy where "doy = r4 - n1 * 365"
  define mp where "mp = (5 * doy + 2) div 153"
  define d where "d = doy - (153 * mp + 2) div 5 + 1"
  define m where "m = (if mp < 10 then mp + 3 else mp - 9)"
  define yoe where "yoe = n100 * 100 + n4 * 4 + n1"
  have civil: "civil_from_days z = (n400 * 400 + n100 * 100 + n4 * 4 + n1 + (if m \<le> 2 then 1 else 0), m, d)"
    unfolding civil_from_days_def Let_def m_def d_def mp_def doy_def n1_def r4_def n4_def
      r100_def n100_def n400_def r400_def by (rule refl)
  have r400: "0 \<le> r400" "r400 \<le> 146096"
  proof -
    have "r400 < 146097" unfolding r400_def by (rule pos_mod_bound) simp
    then show "r400 \<le> 146096" by linarith
    show "0 \<le> r400" unfolding r400_def by (rule pos_mod_sign) simp
  qed
  have q100: "0 \<le> r400 div 36524" using r400(1) by (simp add: pos_imp_zdiv_nonneg_iff)
  then have n100: "0 \<le> n100" "n100 \<le> 3" unfolding n100_def by simp_all
  have r100: "0 \<le> r100" "r100 \<le> 36524"
  proof -
    have "r400 = 36524 * (r400 div 36524) + r400 mod 36524" by simp
    moreover have "0 \<le> r400 mod 36524" "r400 mod 36524 < 36524" by simp_all
    ultimately have e: "36524 * (r400 div 36524) \<le> r400"
      "r400 < 36524 * (r400 div 36524) + 36524"
      by linarith+
    show "0 \<le> r100" unfolding r100_def n100_def using e q100 by (simp add: min_def) 
    show "r100 \<le> 36524" unfolding r100_def n100_def using e r400 by (simp add: min_def) 
  qed
  have n4: "0 \<le> n4" "n4 \<le> 24"
  proof -
    show "0 \<le> n4" unfolding n4_def using r100(1) by (simp add: pos_imp_zdiv_nonneg_iff)
    have "r100 div 1461 \<le> 36524 div 1461" using r100(2) by (rule zdiv_mono1) simp
    then show "n4 \<le> 24" unfolding n4_def by simp
  qed
  have r4: "0 \<le> r4" "r4 \<le> 1460"
  proof -
    have "r4 < 1461" unfolding r4_def by (rule pos_mod_bound) simp
    then show "r4 \<le> 1460" by linarith
    show "0 \<le> r4" unfolding r4_def by (rule pos_mod_sign) simp
  qed
  have n1: "0 \<le> n1" "n1 \<le> 3"
    unfolding n1_def using r4(1) by (simp_all add: pos_imp_zdiv_nonneg_iff)
  note doy = doy_bounds [OF r4, folded n1_def doy_def]
  note md = month_day_bounds [OF doy, folded mp_def]
  note yoe = year_of_era_days [OF n100 n4 n1, folded yoe_def]
  have r100_split: "r100 = n4 * 1461 + r4"
    unfolding n4_def r4_def by simp
  have doe: "yoe * 365 + yoe div 4 - yoe div 100 + doy = r400"
    unfolding yoe(3) using r100_split by (simp add: doy_def r100_def)
  have z: "n400 * 146097 + r400 = z + 719468"
    unfolding n400_def r400_def by simp
  define y1 where "y1 = n400 * 400 + yoe"
  have yoe_small: "0 \<le> yoe" "yoe < 400" using yoe(1,2) by linarith+
  have "y1 div 400 = n400 + yoe div 400" "y1 mod 400 = yoe mod 400"
    unfolding y1_def by simp_all
  moreover have "yoe div 400 = 0" "yoe mod 400 = yoe"
    using yoe_small by (simp_all add: div_pos_pos_trivial mod_pos_pos_trivial)
  ultimately have era: "y1 div 400 = n400" "y1 mod 400 = yoe" by simp_all
  have mp': "(if m > 2 then m - 3 else m + 9) = mp"
    using md unfolding m_def by auto
  have y1': "(if m \<le> 2 then n400 * 400 + n100 * 100 + n4 * 4 + n1 + (if m \<le> 2 then 1 else 0) - 1
             else n400 * 400 + n100 * 100 + n4 * 4 + n1 + (if m \<le> 2 then 1 else 0)) = y1"
    by (simp add: y1_def yoe_def)
  have "days_from_civil (n400 * 400 + n100 * 100 + n4 * 4 + n1 + (if m \<le> 2 then 1 else 0)) m d
          = y1 div 400 * 146097
            + (y1 mod 400 * 365 + y1 mod 400 div 4 - y1 mod 400 div 100
               + ((153 * mp + 2) div 5 + d - 1)) - 719468"
    unfolding days_from_civil_def Let_def y1' mp' by (rule refl)
  also have "(153 * mp + 2) div 5 + d - 1 = doy" by (simp add: d_def)
  also have "y1 div 400 * 146097 + (y1 mod 400 * 365 + y1 mod 400 div 4 - y1 mod 400 div 100 + doy)
               - 719468 = z"
    unfolding era doe using z by simp
  finally show ?thesis by (simp add: civil)
qed


lemma getMonth_range: "0 \<le> getMonth h t \<and> getMonth h t \<le> 11"
  using civil_from_days_bounds [of "localDay h t"] by (simp add: getMonth_def)

lemma getDate_range: "1 \<le> getDate h t \<and> getDate h t \<le> 31"
  using civil_from_days_bounds [of "localDay h t"] by (simp add: getDate_def)

lemma getDay_range: "0 \<le> getDay h t \<and> getDay h t \<le> 6"
  by (simp add: getDay_def)

lemma getHours_range: "0 \<le> getHours h t \<and> getHours h t \<le> 23"
proof -
  define x where "x = LocalTime h t mod msPerDay"
  have "x < 86400000" by (simp add: x_def msPerDay_def)
  then have x: "0 \<le> x" "x \<le> 86399999"
    by (simp_all add: x_def msPerDay_def)
  have "x div 3600000 \<le> 86399999 div 3600000"
    using x(2) by (rule zdiv_mono1) simp
  moreover have "0 \<le> x div 3600000"
    using x(1) by (simp add: pos_imp_zdiv_nonneg_iff)
  ultimately show ?thesis by (simp add: getHours_def x_def)
qed

text \<open>The two table reads of \<open>bucket_key\<close> never leave their tables.\<close>

lemma quarter_index_in_range: "nat \<lfloor>(of_int (getMonth h t) :: rat) / 3\<rfloor> < length quarters"
proof -
  have "\<lfloor>(of_int (getMonth h t) :: rat) / 3\<rfloor> = getMonth h t div 3"
    by (metis floor_divide_of_int_eq of_int_numeral)
  moreover have "0 \<le> getMonth h t div 3" "getMonth h t div 3 < 4"
    using getMonth_range [of h t] by presburger+
  moreover have "length quarters = 4" by (simp add: quarters_def)
  ultimately show ?thesis by simp
qed

lemma weekday_index_in_range: "nat (getDay h t) < length days"
proof -
  have "length days = 7" by (simp add: days_def)
  then show ?thesis using getDay_range [of h t] by linarith
qed

text \<open>
  Setting the day of the month relative to the current one moves the local time by whole
  days, whatever the month.
\<close>

lemma MakeDay_current:
  "MakeDay (getFullYear h t) (getMonth h t) v = localDay h t + v - getDate h t"
proof -
  obtain y m d where c: "civil_from_days (localDay h t) = (y, m, d)"
    by (cases "civil_from_days (localDay h t)")
  from days_from_civil_of_civil [of "localDay h t"] c
  have rt: "days_from_civil y m d = localDay h t" by simp
  have lin: "days_from_civil y m 1 = days_from_civil y m d - (d - 1)"
    by (simp add: days_from_civil_def Let_def)
  from civil_from_days_bounds [of "localDay h t"] c have m: "1 \<le> m" "m \<le> 12" by simp_all
  then have "(m - 1) div 12 = 0" "(m - 1) mod 12 + 1 = m"
    by (simp_all add: div_pos_pos_trivial mod_pos_pos_trivial)
  then have "MakeDay y (m - 1) v = days_from_civil y m 1 + v - 1"
    by (simp add: MakeDay_def)
  then show ?thesis
    by (simp add: getFullYear_def getMonth_def getDate_def c lin rt)
qed

lemma local_time_split: "localDay h t * msPerDay + LocalTime h t mod msPerDay = LocalTime h t"
  by (simp add: localDay_def)

lemma setDate_shift:
  "setDate h t (getDate h t - i) = UTC h (LocalTime h t - i * msPerDay)"
proof -
  have "(localDay h t + (getDate h t - i) - getDate h t) * msPerDay + LocalTime h t mod msPerDay
          = localDay h t * msPerDay + LocalTime h t mod msPerDay - i * msPerDay"
    by (simp add: algebra_simps)
  then show ?thesis
    by (simp only: setDate_def MakeDay_current local_time_split)
qed

text \<open>The lower time bounds of the code are the local midnights the properties speak of.\<close>

lemma setHours0_local_midnight: "setHours0 h t = local_midnight h (localDay h t)"
  by (simp add: setHours0_def UTC_def local_midnight_def)

lemma startDate_period_start: "startDate h p = period_start h p"
proof (cases p)
  case Day
  then show ?thesis
    by (simp add: startDate_def period_start_def first_day_def setHours0_local_midnight)
next
  case Week
  have "setDate h (now h) (getDate h (now h) - 6) = UTC h (LocalTime h (now h) - 6 * msPerDay)"
    by (rule setDate_shift)
  with Week show ?thesis
    by (simp add: startDate_def period_start_def first_day_def setHours0_local_midnight)
next
  case Month
  have "MakeDay (getFullYear h (now h)) (getMonth h (now h)) 1
          = localDay h (now h) - (getDate h (now h) - 1)"
    by (simp add: MakeDay_current)
  with Month show ?thesis
    by (simp add: startDate_def period_start_def first_day_def newDateYMD_def UTC_def
          local_midnight_def)
next
  case Year
  then show ?thesis
    by (simp add: startDate_def period_start_def first_day_def newDateYMD_def UTC_def
          local_midnight_def MakeDay_def)
qed

subsection \<open>Hosts without daylight saving\<close>

lemma fixed_zone_round_trip:
  assumes "LocalTZA h = fixed_zone c"
  shows "UTC h (LocalTime h t + k) = t + k" "LocalTime h t = t + c" "UTC h l = l - c"
  by (simp_all add: UTC_def LocalTime_def assms fixed_zone_def)

lemma setDate_fixed_zone:
  assumes "LocalTZA h = fixed_zone c"
  shows "setDate h t (getDate h t - i) = t - i * msPerDay"
  using fixed_zone_round_trip(1) [OF assms, of t "- (i * msPerDay)"]
  by (simp add: setDate_shift)

lemma days_ago_date:
  assumes "LocalTZA h = fixed_zone c"
  shows "toISODate (setDate h t (getDate h t - int i)) = toISODate t - int i"
proof -
  have "(t + (- int i) * 86400000) div 86400000 = t div 86400000 + (- int i)"
    using div_mult_self1 [of "86400000 :: int" t "- int i"] by simp
  then show ?thesis
    by (simp add: setDate_fixed_zone [OF assms] toISODate_def msPerDay_def)
qed

lemma day_start_le_iff: "d * 86400000 \<le> x \<longleftrightarrow> d \<le> x div 86400000" for d x :: int
proof -
  define q where "q = x div 86400000"
  define r where "r = x mod 86400000"
  have x: "x = 86400000 * q + r" unfolding q_def r_def by simp
  have r: "0 \<le> r" "r < 86400000" unfolding r_def by simp_all
  show ?thesis unfolding q_def [symmetric] using x r by linarith
qed

lemma local_midnight_le_iff:
  assumes "LocalTZA h = fixed_zone c"
  shows "local_midnight h d \<le> t \<longleftrightarrow> d \<le> localDay h t"
  using day_start_le_iff [of d "t + c"]
  by (simp add: local_midnight_def localDay_def LocalTime_def assms fixed_zone_def msPerDay_def
        algebra_simps)

lemma first_day_week_fixed_zone:
  assumes "LocalTZA h = fixed_zone c"
  shows "first_day h Week = localDay h (now h) - 6"
proof -
  have "localDay h (UTC h (LocalTime h (now h) - 6 * msPerDay))
          = (now h + c + (- 6) * 86400000) div 86400000"
    by (simp add: localDay_def fixed_zone_round_trip [OF assms] msPerDay_def)
  also have "\<dots> = (now h + c) div 86400000 + (- 6)"
    using div_mult_self1 [of "86400000 :: int" "now h + c" "- 6"] by simp
  finally show ?thesis
    by (simp add: first_day_def localDay_def fixed_zone_round_trip [OF assms] msPerDay_def)
qed

section \<open>The heatmap\<close>

lemma level_of_mono: "m \<le> n \<Longrightarrow> level_of m \<le> level_of n"
  by (simp add: level_of_def)

lemma countMap_fold:
  "fold (\<lambda>entry m. countMap_set m entry) rows m0 d =
     (let n = length (filter (\<lambda>r. completed_date r = d) rows)
      in case m0 d of
           None \<Rightarrow> if n = 0 then None else Some n
         | Some c \<Rightarrow> Some (c + n))"
proof (induction rows arbitrary: m0)
  case Nil
  show ?case by (simp split: option.splits)
next
  case (Cons r rows)
  have "fold (\<lambda>entry m. countMap_set m entry) (r # rows) m0 d
          = fold (\<lambda>entry m. countMap_set m entry) rows (countMap_set m0 r) d"
    by simp
  also have "\<dots> = (let n = length (filter (\<lambda>r. completed_date r = d) rows)
      in case countMap_set m0 r d of
           None \<Rightarrow> if n = 0 then None else Some n
         | Some c \<Rightarrow> Some (c + n))"
    by (rule Cons.IH)
  also have "\<dots> = (let n = length (filter (\<lambda>r. completed_date r = d) (r # rows))
      in case m0 d of
           None \<Rightarrow> if n = 0 then None else Some n
         | Some c \<Rightarrow> Some (c + n))"
    by (simp add: countMap_set_def Let_def split: option.splits)
  finally show ?case .
qed

lemma countMap_of_lookup:
  "(case countMap_of rows d of None \<Rightarrow> 0 | Some n \<Rightarrow> n)
     = length (filter (\<lambda>r. completed_date r = d) rows)"
  by (simp add: countMap_of_def countMap_fold Let_def)

lemma heatmap_cell_at_fields:
  "date (heatmap_cell_at h cm i) = toISODate (setDate h (now h) (getDate h (now h) - int i))"
  "count (heatmap_cell_at h cm i) =
     (case cm (date (heatmap_cell_at h cm i)) of None \<Rightarrow> 0 | Some n \<Rightarrow> n)"
  "level (heatmap_cell_at h cm i) = level_of (count (heatmap_cell_at h cm i))"
  by (simp_all add: heatmap_cell_at_def Let_def)

lemma heatmap_cell_at_fixed_zone:
  assumes "LocalTZA h = fixed_zone c"
  shows "date (heatmap_cell_at h cm i) = toISODate (now h) - int i"
    "count (heatmap_cell_at h cm i)
       = (case cm (toISODate (now h) - int i) of None \<Rightarrow> 0 | Some n \<Rightarrow> n)"
  by (simp_all add: heatmap_cell_at_def Let_def days_ago_date [OF assms])

lemma getHabitHeatmap_ok:
  assumes "failing b HabitLogs = None" and "LocalTZA h = fixed_zone c"
  shows "getHabitHeatmap h b userId n =
     Inr (map (heatmap_cell_at h (countMap_of (filter
            (\<lambda>r. user_id r = userId \<and> completed_date r \<ge> toISODate (now h) - int n)
            (habit_logs b)))) (rev [0..<Suc n]))"
  using assms(1)
  by (simp add: getHabitHeatmap_def select_where_def Let_def days_ago_date [OF assms(2)])

lemma getHabitHeatmap_cases:
  "getHabitHeatmap h b userId n = Inr cells \<Longrightarrow>
   \<exists>cm. cells = map (heatmap_cell_at h cm) (rev [0..<Suc n])"
  by (cases "failing b HabitLogs")
     (auto simp: getHabitHeatmap_def select_where_def Let_def)

lemma heat_demo: "getHabitHeatmap demo_host heat_backend ''alice'' 3 = Inr heat_cells"
  by code_simp

text \<open>
  C4. In every cell that \<open>getHabitHeatmap\<close> returns, the level is the fixed step function
  of the count: 0 for a count of 0, 1 for a count of 1 or 2, 2 for a count of 3 or 4, 3 from
  a count of 5 on; so the levels of the counts 0, 1, 2, 3, 4, 5 and 100 are 0, 1, 1, 2, 2,
  3 and 3, and a larger count never has a smaller level.
\<close>

theorem heatmap_level_step:
  assumes "getHabitHeatmap h b userId n = Inr cells"
  shows "(\<forall>c \<in> set cells.
            level c = level_of (count c)
          \<and> (count c = 0 \<longrightarrow> level c = 0)
          \<and> (1 \<le> count c \<and> count c < 3 \<longrightarrow> level c = 1)
          \<and> (3 \<le> count c \<and> count c < 5 \<longrightarrow> level c = 2)
          \<and> (5 \<le> count c \<longrightarrow> level c = 3))
       \<and> (\<forall>c \<in> set cells. \<forall>c' \<in> set cells. count c \<le> count c' \<longrightarrow> level c \<le> level c')
       \<and> level_of 0 = 0 \<and> level_of 1 = 1 \<and> level_of 2 = 1 \<and> level_of 3 = 2
       \<and> level_of 4 = 2 \<and> level_of 5 = 3 \<and> level_of 100 = 3
       \<and> (\<forall>i j. i \<le> j \<longrightarrow> level_of i \<le> level_of j)"
proof -
  have lv: "level c = level_of (count c)" if "c \<in> set cells" for c
    using that getHabitHeatmap_cases [OF assms] by (auto simp: heatmap_cell_at_fields(3))
  have step: "level_of k = (if k = 0 then 0 else if k < 3 then 1 else if k < 5 then 2 else 3)" for k
    by (simp add: level_of_def)
  have vals: "level_of 0 = 0 \<and> level_of 1 = 1 \<and> level_of 2 = 1 \<and> level_of 3 = 2
       \<and> level_of 4 = 2 \<and> level_of 5 = 3 \<and> level_of 100 = 3"
    by (simp add: step)
  have mono: "\<forall>i j. i \<le> j \<longrightarrow> level_of i \<le> level_of j"
    by (simp add: level_of_mono)
  have cells: "\<forall>c \<in> set cells.
            level c = level_of (count c)
          \<and> (count c = 0 \<longrightarrow> level c = 0)
          \<and> (1 \<le> count c \<and> count c < 3 \<longrightarrow> level c = 1)
          \<and> (3 \<le> count c \<and> count c < 5 \<longrightarrow> level c = 2)
          \<and> (5 \<le> count c \<longrightarrow> level c = 3)"
    by (simp add: lv step)
  have pair: "\<forall>c \<in> set cells. \<forall>c' \<in> set cells. count c \<le> count c' \<longrightarrow> level c \<le> level c'"
    by (simp add: lv level_of_mono)
  from cells pair vals mono show ?thesis by blast
qed

theorem heatmap_level_step_witness:
  "getHabitHeatmap demo_host heat_backend ''alice'' 3 = Inr heat_cells
   \<and> map count heat_cells = [0, 2, 4, 6] \<and> map level heat_cells = [0, 1, 2, 3]
   \<and> level (heat_cells ! 1) = level_of (count (heat_cells ! 1))
   \<and> level (heat_cells ! 1) \<le> level (heat_cells ! 2)"
proof -
  note run = heat_demo
  have m1: "heat_cells ! 1 \<in> set heat_cells" and m2: "heat_cells ! 2 \<in> set heat_cells"
    by (simp_all add: heat_cells_def)
  have le: "count (heat_cells ! 1) \<le> count (heat_cells ! 2)"
    by (simp add: heat_cells_def)
  from heatmap_level_step [OF run] m1 m2 le
  have "level (heat_cells ! 1) = level_of (count (heat_cells ! 1))"
    and "level (heat_cells ! 1) \<le> level (heat_cells ! 2)"
    by blast+
  moreover have "map count heat_cells = [0, 2, 4, 6]" "map level heat_cells = [0, 1, 2, 3]"
    by (simp_all add: heat_cells_def)
  ultimately show ?thesis using run by simp
qed

text \<open>
  On a host without daylight saving the window is dense: for every window size \<open>n\<close>, when
  the request succeeds \<open>getHabitHeatmap\<close> returns exactly \<open>n + 1\<close> cells, one for each
  calendar day from \<open>n\<close> days ago up to today, oldest first; the count of a cell is the
  number of the owner's log rows of that day, hence 0 for a day without a logged completion.
\<close>

lemma heatmap_dense_window_fixed_zone:
  assumes "failing b HabitLogs = None" and zone: "LocalTZA h = fixed_zone c"
  shows "\<exists>cells. getHabitHeatmap h b userId n = Inr cells
     \<and> length cells = n + 1
     \<and> map date cells = map (\<lambda>i. toISODate (now h) - int n + int i) [0..<n + 1]
     \<and> (\<forall>c \<in> set cells.
          count c = length (filter (\<lambda>r. user_id r = userId \<and> completed_date r = date c)
                              (habit_logs b)))
     \<and> (\<forall>c \<in> set cells.
          (\<forall>r \<in> set (habit_logs b). user_id r = userId \<longrightarrow> completed_date r \<noteq> date c)
            \<longrightarrow> count c = 0)"
proof -
  let ?today = "toISODate (now h)"
  let ?rows = "filter (\<lambda>r. user_id r = userId \<and> completed_date r \<ge> ?today - int n) (habit_logs b)"
  let ?cells = "map (heatmap_cell_at h (countMap_of ?rows)) (rev [0..<Suc n])"
  have run: "getHabitHeatmap h b userId n = Inr ?cells"
    by (rule getHabitHeatmap_ok [OF assms])
  have len: "length ?cells = n + 1" by simp
  have "map date ?cells = map (\<lambda>i. ?today - int i) (rev [0..<Suc n])"
    by (simp add: heatmap_cell_at_fixed_zone [OF zone] comp_def del: upt_Suc)
  also have "\<dots> = rev (map (\<lambda>i. ?today - int i) [0..<Suc n])"
    by (simp only: rev_map)
  also have "\<dots> = map (\<lambda>i. ?today - int n + int i) [0..<n + 1]"
    by (rule nth_equalityI) (simp_all add: rev_nth del: upt_Suc)
  finally have dates: "map date ?cells = map (\<lambda>i. ?today - int n + int i) [0..<n + 1]" .
  have cnt: "count c = length (filter (\<lambda>r. user_id r = userId \<and> completed_date r = date c)
                              (habit_logs b))" if "c \<in> set ?cells" for c
  proof -
    from that obtain i where "i < Suc n" and c: "c = heatmap_cell_at h (countMap_of ?rows) i"
      by (auto simp del: upt_Suc)
    then have i: "i \<le> n" by simp
    have w: "(user_id r = userId \<and> ?today - int n \<le> completed_date r
               \<and> completed_date r = ?today - int i)
             \<longleftrightarrow> (user_id r = userId \<and> completed_date r = ?today - int i)" for r :: habit_log
      using i by auto
    show ?thesis
      unfolding c heatmap_cell_at_fixed_zone [OF zone] countMap_of_lookup filter_filter
      by (simp add: w)
  qed
  have zero: "count c = 0"
    if "c \<in> set ?cells"
      and "\<forall>r \<in> set (habit_logs b). user_id r = userId \<longrightarrow> completed_date r \<noteq> date c" for c
    using that(2) by (simp add: cnt [OF that(1)] filter_empty_conv)
  from run len dates cnt zero show ?thesis by blast
qed


text \<open>
  C5, on a host with daylight saving. In New York, at 19:30 on 2 November 2026 (the 3rd in
  UTC), two days after the clocks went back, a window of 3 days has the cells of 30 and 31
  October and of 2 and 3 November: the loop steps in local days and names the cells by
  their UTC date, so 1 November has no cell and its two completions are not shown, while
  the comment at the loop promises the complete sequence of dates.
\<close>

theorem heatmap_skips_day_on_dst_host:
  "toISODate (now new_york_host) = 20760
   \<and> length (filter (\<lambda>r. user_id r = ''alice'' \<and> completed_date r = 20758)
               (habit_logs dst_backend)) = 2
   \<and> getHabitHeatmap new_york_host dst_backend ''alice'' 3
       = Inr [\<lparr>date = 20756, count = 1, level = 1\<rparr>, \<lparr>date = 20757, count = 0, level = 0\<rparr>,
              \<lparr>date = 20759, count = 0, level = 0\<rparr>, \<lparr>date = 20760, count = 1, level = 1\<rparr>]"
proof -
  have "getHabitHeatmap new_york_host dst_backend ''alice'' 3
       = Inr [\<lparr>date = 20756, count = 1, level = 1\<rparr>, \<lparr>date = 20757, count = 0, level = 0\<rparr>,
              \<lparr>date = 20759, count = 0, level = 0\<rparr>, \<lparr>date = 20760, count = 1, level = 1\<rparr>]"
    by code_simp
  moreover have "toISODate (now new_york_host) = 20760"
    by (simp add: toISODate_def new_york_host_def msPerDay_def)
  moreover have "length (filter (\<lambda>r. user_id r = ''alice'' \<and> completed_date r = 20758)
               (habit_logs dst_backend)) = 2"
    by (simp add: dst_backend_def logs_backend_def mk_log_def)
  ultimately show ?thesis by simp
qed

lemma heatmap_demo_window:
  "\<exists>cells. getHabitHeatmap demo_host heat_backend ''alice'' 3 = Inr cells
     \<and> length cells = 4 \<and> map date cells = [20757, 20758, 20759, 20760]"
proof -
  have ok: "failing heat_backend HabitLogs = None"
    by (simp add: heat_backend_def healthy_def)
  have zone: "LocalTZA demo_host = fixed_zone 28800000"
    by (simp add: demo_host_def)
  from heatmap_dense_window_fixed_zone [OF ok zone, of "''alice''" 3]
  obtain cells where c: "getHabitHeatmap demo_host heat_backend ''alice'' 3 = Inr cells"
    and l: "length cells = 3 + 1"
    and d: "map date cells = map (\<lambda>i. toISODate (now demo_host) - int 3 + int i) [0..<3 + 1]"
    by blast
  have "toISODate (now demo_host) = 20760"
    by (simp add: toISODate_def demo_host_def msPerDay_def)
  with d have "map date cells = [20757, 20758, 20759, 20760]"
    by (simp add: upt_rec)
  with c l show ?thesis by auto
qed

section \<open>Streaks\<close>

lemma fold_set_add:
  "set (fold (\<lambda>x acc. set_add acc x) xs acc) = set acc \<union> set xs"
  "distinct acc \<Longrightarrow> distinct (fold (\<lambda>x acc. set_add acc x) xs acc)"
  by (induction xs arbitrary: acc) (auto simp: set_add_def)

lemma new_Set_props: "set (new_Set xs) = set xs" "distinct (new_Set xs)"
  by (simp_all add: new_Set_def fold_set_add)

lemma sort_newest_first_props:
  "set (sort_newest_first ds) = set ds"
  "distinct (sort_newest_first ds) = distinct ds"
  "sorted (rev (sort_newest_first ds))"
proof -
  show "set (sort_newest_first ds) = set ds" "distinct (sort_newest_first ds) = distinct ds"
    by (simp_all add: sort_newest_first_def)
  have "sorted (map (\<lambda>d. - getTime d) (sort_newest_first ds))"
    unfolding sort_newest_first_def by (rule sorted_sort_key)
  then have "sorted_wrt (\<lambda>x y. - getTime x \<le> - getTime y) (sort_newest_first ds)"
    by (simp add: sorted_map)
  then have "sorted_wrt (\<lambda>x y. y \<le> x) (sort_newest_first ds)"
    by (rule sorted_wrt_mono_rel [rotated]) (simp add: getTime_def msPerDay_def)
  then show "sorted (rev (sort_newest_first ds))"
    by (simp add: sorted_wrt_rev)
qed

lemma newest_first_unique:
  assumes "sorted (rev xs)" "distinct xs" "sorted (rev ys)" "distinct ys" "set xs = set ys"
  shows "xs = ys"
proof -
  have "rev xs = rev ys"
    by (rule sorted_distinct_set_unique) (use assms in simp_all)
  then show ?thesis by simp
qed

lemma diff_days_one: "diff_days p c = 1 \<longleftrightarrow> p = c + 1"
proof -
  have "getTime p - getTime c = (p - c) * 86400000"
    by (simp add: getTime_def msPerDay_def algebra_simps)
  then have "diff_days p c = of_int (p - c) * 86400000 / 86400000"
    by (simp add: diff_days_def)
  then have "diff_days p c = of_int (p - c)" by simp
  then have "diff_days p c = 1 \<longleftrightarrow> p - c = 1" by (simp only: of_int_eq_1_iff)
  then show ?thesis by linarith
qed

lemma rev_upto_Cons: "a \<le> t \<Longrightarrow> rev [a..t] = t # rev [a..t - 1]"
  by (simp add: upto_rec2)

lemma current_loop_run:
  assumes "a \<le> t" "rest = [] \<or> hd rest \<noteq> a - 1"
  shows "current_loop (rev [a..t] @ rest) c = c + nat (t - a)"
  using assms(1)
proof (induction "nat (t - a)" arbitrary: t c)
  case 0
  then have "t = a" by simp
  then have "rev [a..t] @ rest = a # rest" by simp
  then show ?case using assms(2) \<open>t = a\<close>
    by (cases rest) (auto simp: diff_days_one)
next
  case (Suc n)
  then have lt: "a \<le> t - 1" and n: "n = nat (t - 1 - a)" by linarith+
  have "rev [a..t] @ rest = t # (t - 1) # (rev [a..t - 1 - 1] @ rest)"
    using lt Suc.prems by (simp add: rev_upto_Cons)
  then have "current_loop (rev [a..t] @ rest) c
               = current_loop ((t - 1) # (rev [a..t - 1 - 1] @ rest)) (c + 1)"
    by (simp add: diff_days_one)
  also have "(t - 1) # (rev [a..t - 1 - 1] @ rest) = rev [a..t - 1] @ rest"
    using lt by (simp add: rev_upto_Cons)
  also have "current_loop (rev [a..t - 1] @ rest) (c + 1) = c + 1 + nat (t - 1 - a)"
    by (rule Suc.hyps(1) [OF n lt])
  finally show ?case using Suc.hyps(2) n by simp
qed

lemma uniqueDates_run:
  assumes k: "1 \<le> k"
    and run: "{t - int k + 1 .. t} \<subseteq> set ds"
    and stop: "t - int k \<notin> set ds"
    and top: "\<forall>d \<in> set ds. d \<le> t"
  shows "sort_newest_first (new_Set ds)
           = rev [t - int k + 1 .. t] @ rev (sorted_list_of_set {d \<in> set ds. d < t - int k})"
proof (rule newest_first_unique)
  let ?old = "{d \<in> set ds. d < t - int k}"
  have fin: "finite ?old" by simp
  show "sorted (rev (sort_newest_first (new_Set ds)))"
    by (rule sort_newest_first_props)
  show "distinct (sort_newest_first (new_Set ds))"
    by (simp add: sort_newest_first_props new_Set_props)
  show "sorted (rev (rev [t - int k + 1 .. t] @ rev (sorted_list_of_set ?old)))"
    by (auto simp: sorted_append)
  show "distinct (rev [t - int k + 1 .. t] @ rev (sorted_list_of_set ?old))"
    by auto
  have "set ds = {t - int k + 1 .. t} \<union> ?old"
  proof
    show "set ds \<subseteq> {t - int k + 1 .. t} \<union> ?old"
    proof
      fix d assume d: "d \<in> set ds"
      with top have "d \<le> t" by blast
      moreover from d stop have "d \<noteq> t - int k" by blast
      ultimately show "d \<in> {t - int k + 1 .. t} \<union> ?old" using d by auto
    qed
    show "{t - int k + 1 .. t} \<union> ?old \<subseteq> set ds" using run by auto
  qed
  then show "set (sort_newest_first (new_Set ds))
               = set (rev [t - int k + 1 .. t] @ rev (sorted_list_of_set ?old))"
    by (simp add: sort_newest_first_props new_Set_props)
qed

lemma streak_of_dates_run:
  assumes k: "1 \<le> k"
    and run: "{toISODate (now h) - int k + 1 .. toISODate (now h)} \<subseteq> set ds"
    and stop: "toISODate (now h) - int k \<notin> set ds"
    and top: "\<forall>d \<in> set ds. d \<le> toISODate (now h)"
  shows "currentStreak (streak_of_dates h ds) = k"
proof -
  let ?t = "toISODate (now h)"
  let ?rest = "rev (sorted_list_of_set {d \<in> set ds. d < ?t - int k})"
  have u: "sort_newest_first (new_Set ds) = rev [?t - int k + 1 .. ?t] @ ?rest"
    by (rule uniqueDates_run [OF k run stop top])
  have a: "?t - int k + 1 \<le> ?t" using k by simp
  have hd: "sort_newest_first (new_Set ds) = ?t # (rev [?t - int k + 1 .. ?t - 1] @ ?rest)"
    unfolding u using a by (simp add: rev_upto_Cons)
  have rest: "?rest = [] \<or> hd ?rest \<noteq> ?t - int k + 1 - 1"
  proof (cases "?rest = []")
    case False
    then have "hd ?rest \<in> set ?rest" by (rule hd_in_set)
    then have "hd ?rest < ?t - int k" by simp
    then show ?thesis by simp
  qed simp
  have "current_loop (rev [?t - int k + 1 .. ?t] @ ?rest) 1 = 1 + nat (?t - (?t - int k + 1))"
    by (rule current_loop_run [OF a rest])
  also have "\<dots> = k" using k by simp
  finally have loop: "current_loop (sort_newest_first (new_Set ds)) 1 = k"
    unfolding u .
  show ?thesis
    using loop [unfolded hd] by (simp add: streak_of_dates_def Let_def hd)
qed

lemma streak_of_dates_stale:
  assumes "\<forall>d \<in> set ds. d < toISODate (now h) - 1"
  shows "currentStreak (streak_of_dates h ds) = 0"
proof (cases "sort_newest_first (new_Set ds)")
  case Nil
  then show ?thesis by (simp add: streak_of_dates_def Let_def)
next
  case (Cons d0 rest)
  then have "d0 \<in> set (sort_newest_first (new_Set ds))" by simp
  then have "d0 \<in> set ds" by (simp add: sort_newest_first_props new_Set_props)
  with assms have "d0 < toISODate (now h) - 1" by blast
  then show ?thesis
    by (simp add: streak_of_dates_def Let_def Cons yesterday_date)
qed

lemma sort_key_Nil: "sort_key f xs = [] \<longleftrightarrow> xs = []"
  by (metis length_sort length_0_conv)

lemma streak_empty: "streak_of_dates h [] = \<lparr>currentStreak = 0, maxStreak = 0\<rparr>"
  by (simp add: streak_of_dates_def new_Set_def sort_newest_first_def)

lemma getStreakData_ok:
  assumes "failing b HabitLogs = None"
  shows "getStreakData h b userId =
     Inr (streak_of_dates h (map completed_date
            (rev (sort_key completed_date (filter (\<lambda>r. user_id r = userId) (habit_logs b))))))"
  using assms
  by (simp add: getStreakData_def select_where_def Let_def sort_key_Nil streak_empty)

lemma getStreakData_dates:
  assumes "failing b HabitLogs = None"
  shows "\<exists>ds. set ds = completed_date ` {r \<in> set (habit_logs b). user_id r = userId}
           \<and> getStreakData h b userId = Inr (streak_of_dates h ds)"
proof -
  let ?rows = "rev (sort_key completed_date (filter (\<lambda>r. user_id r = userId) (habit_logs b)))"
  have s: "set (map completed_date ?rows)
             = completed_date ` {r \<in> set (habit_logs b). user_id r = userId}"
    by simp
  with getStreakData_ok [OF assms, of h userId] show ?thesis by blast
qed

text \<open>
  C2, as the code has it. Evaluated at the host's clock, with today the UTC date of the
  clock: when the owner's completion dates contain the \<open>k\<close> consecutive days ending today,
  do not contain the day before them and contain no date after today, the current streak
  is \<open>k\<close>; and when every completion date is older than yesterday, the current streak
  is 0.
\<close>

theorem current_streak_run:
  assumes "failing b HabitLogs = None"
  shows "(1 \<le> k
            \<and> {toISODate (now h) - int k + 1 .. toISODate (now h)} \<subseteq> owner_dates b userId
            \<and> toISODate (now h) - int k \<notin> owner_dates b userId
            \<and> (\<forall>d \<in> owner_dates b userId. d \<le> toISODate (now h))
          \<longrightarrow> (\<exists>s. getStreakData h b userId = Inr s \<and> currentStreak s = k))
       \<and> ((\<forall>d \<in> owner_dates b userId. d < toISODate (now h) - 1)
          \<longrightarrow> (\<exists>s. getStreakData h b userId = Inr s \<and> currentStreak s = 0))"
proof -
  let ?D = "owner_dates b userId" and ?today = "toISODate (now h)"
  from getStreakData_dates [OF assms(1), of userId h]
  obtain ds where ds: "set ds = ?D" and run: "getStreakData h b userId = Inr (streak_of_dates h ds)"
    unfolding owner_dates_def by blast
  have "currentStreak (streak_of_dates h ds) = k"
    if "1 \<le> k" "{?today - int k + 1 .. ?today} \<subseteq> ?D" "?today - int k \<notin> ?D"
      "\<forall>d \<in> ?D. d \<le> ?today"
    using that unfolding ds [symmetric] by (rule streak_of_dates_run)
  moreover have "currentStreak (streak_of_dates h ds) = 0" if "\<forall>d \<in> ?D. d < ?today - 1"
    using that unfolding ds [symmetric] by (rule streak_of_dates_stale)
  ultimately show ?thesis using run by simp
qed


lemma owner_dates_list:
  "owner_dates b userId
     = set (map completed_date (filter (\<lambda>r. user_id r = userId) (habit_logs b)))"
  by (auto simp: owner_dates_def)

lemma demo_today: "toISODate (now demo_host) = 20760"
  by (simp add: toISODate_def demo_host_def msPerDay_def)

lemma demo_owner_dates:
  "owner_dates run_backend ''alice'' = {20758, 20760, 20755, 20759}"
  "owner_dates old_backend ''alice'' = {20755}"
  "owner_dates future_backend ''alice'' = {20762, 20760, 20759}"
  by (auto simp: owner_dates_list run_backend_def old_backend_def future_backend_def
        logs_backend_def mk_log_def)

theorem current_streak_run_witness:
  "failing run_backend HabitLogs = None
   \<and> (\<exists>s. getStreakData demo_host run_backend ''alice'' = Inr s \<and> currentStreak s = 3)
   \<and> failing old_backend HabitLogs = None
   \<and> (\<exists>s. getStreakData demo_host old_backend ''alice'' = Inr s \<and> currentStreak s = 0)"
proof -
  have ok: "failing run_backend HabitLogs = None" "failing old_backend HabitLogs = None"
    by (simp_all add: run_backend_def old_backend_def logs_backend_def healthy_def)
  have run: "(1::nat) \<le> 3
      \<and> {toISODate (now demo_host) - int 3 + 1 .. toISODate (now demo_host)}
            \<subseteq> owner_dates run_backend ''alice''
      \<and> toISODate (now demo_host) - int 3 \<notin> owner_dates run_backend ''alice''
      \<and> (\<forall>d \<in> owner_dates run_backend ''alice''. d \<le> toISODate (now demo_host))"
    unfolding demo_today demo_owner_dates by auto
  have stale: "\<forall>d \<in> owner_dates old_backend ''alice''. d < toISODate (now demo_host) - 1"
    unfolding demo_today demo_owner_dates by simp
  from current_streak_run [OF ok(1), of 3 demo_host "''alice''"] run
  have a: "\<exists>s. getStreakData demo_host run_backend ''alice'' = Inr s \<and> currentStreak s = 3"
    by blast
  from current_streak_run [OF ok(2), of 0 demo_host "''alice''"] stale
  have b: "\<exists>s. getStreakData demo_host old_backend ''alice'' = Inr s \<and> currentStreak s = 0"
    by blast
  from ok a b show ?thesis by simp
qed

text \<open>
  C2 as stated fails when the log holds a date after today: the dates are the day after
  tomorrow, today and yesterday, so they contain the run of 2 days ending today, and the
  current streak is 0, because the newest date is neither today nor yesterday.
\<close>

theorem current_streak_future_date_counterexample:
  "toISODate (now demo_host) = 20760
   \<and> owner_dates future_backend ''alice'' = {20762, 20760, 20759}
   \<and> getStreakData demo_host future_backend ''alice'' = Inr \<lparr>currentStreak = 0, maxStreak = 2\<rparr>"
proof -
  have "getStreakData demo_host future_backend ''alice'' = Inr \<lparr>currentStreak = 0, maxStreak = 2\<rparr>"
    by code_simp
  then show ?thesis by (simp add: demo_today demo_owner_dates)
qed

text \<open>
  A log of a single date: the current streak is 1 when the date is today or yesterday and
  0 otherwise, and the maximum is the same number, since the loop over neighbouring dates
  never runs and the maximum is only raised inside it.
\<close>

lemma streak_single_date:
  assumes "set ds = {d}"
  shows "streak_of_dates h ds =
     (if d = toISODate (now h) \<or> d = toISODate (now h) - 1
      then \<lparr>currentStreak = 1, maxStreak = 1\<rparr> else \<lparr>currentStreak = 0, maxStreak = 0\<rparr>)"
proof -
  have "sort_newest_first (new_Set ds) = [d]"
    by (rule newest_first_unique)
       (simp_all add: sort_newest_first_props new_Set_props assms)
  then show ?thesis
    by (simp add: streak_of_dates_def Let_def yesterday_date)
qed

text \<open>
  C1, at a log whose only completion is five days old: the code returns a maximum streak
  of 0, where a log with a completion date has a longest run of one day.
\<close>

theorem streak_single_old_date:
  "owner_dates old_backend ''alice'' = {20755}
   \<and> toISODate (now demo_host) = 20760
   \<and> getStreakData demo_host old_backend ''alice'' = Inr \<lparr>currentStreak = 0, maxStreak = 0\<rparr>"
proof -
  have "getStreakData demo_host old_backend ''alice'' = Inr \<lparr>currentStreak = 0, maxStreak = 0\<rparr>"
    by code_simp
  then show ?thesis by (simp add: demo_today demo_owner_dates)
qed

text \<open>The dates today, yesterday, the day before and five days ago give 3 and 3.\<close>

lemma streak_scenario:
  "getStreakData demo_host run_backend ''alice'' = Inr \<lparr>currentStreak = 3, maxStreak = 3\<rparr>"
  by code_simp

section \<open>The focus chart\<close>

text \<open>
  \<open>new_Set\<close> lists the distinct elements in the order of their first occurrence.
\<close>

lemma new_Set_fold_append:
  "fold (\<lambda>x acc. set_add acc x) xs acc
     = acc @ fold (\<lambda>x acc. set_add acc x) (filter (\<lambda>y. y \<notin> set acc) xs) []"
proof (induction "length xs" arbitrary: xs acc rule: less_induct)
  case less
  show ?case
  proof (cases xs)
    case Nil
    then show ?thesis by simp
  next
    case (Cons x ys)
    show ?thesis
    proof (cases "x \<in> set acc")
      case True
      then show ?thesis
        using less [of ys acc] by (simp add: Cons set_add_def)
    next
      case False
      let ?zs = "filter (\<lambda>y. y \<notin> set acc) ys"
      have "fold (\<lambda>x acc. set_add acc x) xs acc
              = (acc @ [x]) @ fold (\<lambda>x acc. set_add acc x)
                                (filter (\<lambda>y. y \<notin> set (acc @ [x])) ys) []"
        using less [of ys "acc @ [x]"] False by (simp add: Cons set_add_def)
      moreover have "length ?zs < length xs"
        by (simp add: Cons le_imp_less_Suc)
      then have "fold (\<lambda>x acc. set_add acc x) ?zs [x]
              = [x] @ fold (\<lambda>x acc. set_add acc x) (filter (\<lambda>y. y \<notin> set [x]) ?zs) []"
        by (rule less)
      moreover have "filter (\<lambda>y. y \<notin> set [x]) ?zs = filter (\<lambda>y. y \<notin> set (acc @ [x])) ys"
        by (simp add: conj_commute)
      ultimately show ?thesis using False by (simp add: Cons set_add_def)
    qed
  qed
qed

lemma new_Set_Cons: "new_Set (x # xs) = x # new_Set (filter (\<lambda>y. y \<noteq> x) xs)"
  using new_Set_fold_append [of xs "[x]"] by (simp add: new_Set_def set_add_def)

lemma map_set_keys: "map fst (map_set m k v) = set_add (map fst m) k"
  by (induction m) (auto simp: set_add_def)

lemma aggregate_keys:
  "map fst (fold (aggregate_step h p) ss acc)
     = fold (\<lambda>x acc. set_add acc x) (map (\<lambda>s. bucket_key h p (completed_at s)) ss) (map fst acc)"
  by (induction ss arbitrary: acc) (simp_all add: aggregate_step_def Let_def map_set_keys)

lemma map_of_map_set: "map_of (map_set m k v) k' = (if k' = k then Some v else map_of m k')"
  by (induction m) auto

lemma aggregate_lookup:
  "map_of (fold (aggregate_step h p) ss acc) k =
     (let hits = filter (\<lambda>s. bucket_key h p (completed_at s) = k) ss;
          total = sum_list (map duration_minutes hits)
      in case map_of acc k of
           None \<Rightarrow> if hits = [] then None else Some total
         | Some v \<Rightarrow> Some (v + total))"
proof (induction ss arbitrary: acc)
  case Nil
  show ?case by (simp split: option.splits)
next
  case (Cons s ss)
  have "map_of (fold (aggregate_step h p) (s # ss) acc) k
          = map_of (fold (aggregate_step h p) ss (aggregate_step h p s acc)) k"
    by simp
  also have "\<dots> =
     (let hits = filter (\<lambda>s. bucket_key h p (completed_at s) = k) ss;
          total = sum_list (map duration_minutes hits)
      in case map_of (aggregate_step h p s acc) k of
           None \<Rightarrow> if hits = [] then None else Some total
         | Some v \<Rightarrow> Some (v + total))"
    by (rule Cons.IH)
  also have "\<dots> =
     (let hits = filter (\<lambda>s. bucket_key h p (completed_at s) = k) (s # ss);
          total = sum_list (map duration_minutes hits)
      in case map_of acc k of
           None \<Rightarrow> if hits = [] then None else Some total
         | Some v \<Rightarrow> Some (v + total))"
    by (simp add: aggregate_step_def map_get_def map_of_map_set Let_def split: option.splits)
  finally show ?case .
qed

lemma getFocusChartData_ok:
  assumes "failing b FocusSessions = None"
  shows "getFocusChartData h b userId p =
     Inr (map (\<lambda>(n, v). \<lparr>name = n, val = v\<rparr>)
            (fold (aggregate_step h p) (chart_sessions h b userId p) []))"
  using assms
  by (simp add: getFocusChartData_def select_where_def chart_sessions_def Let_def
        startDate_period_start)

lemma chart_points_names:
  "map name (map (\<lambda>(n, v). \<lparr>name = n, val = v\<rparr>) agg) = map fst agg"
  by (induction agg) auto


lemma chart_scenario:
  "getFocusChartData demo_host chart_backend ''alice'' Day
     = Inr [\<lparr>name = ''09:00'', val = 50\<rparr>, \<lparr>name = ''14:00'', val = 25\<rparr>,
            \<lparr>name = ''20:00'', val = 25\<rparr>]"
  by code_simp

lemma chart_scenario_hours:
  "map (\<lambda>s. getHours demo_host (completed_at s)) (focus_sessions chart_backend) = [9, 9, 14, 20]"
  "map duration_minutes (focus_sessions chart_backend) = [25, 25, 25, 25]"
  "map mode (focus_sessions chart_backend) = [work, work, work, work]"
  by (simp_all add: chart_backend_def sessions_backend_def mk_session_def getHours_def
        LocalTime_def demo_host_def fixed_zone_def msPerDay_def)

subsection \<open>The bucket keys\<close>

lemma bucket_key_Day:
  "bucket_key h Day t =
     [''0123456789'' ! nat (getHours h t div 10), ''0123456789'' ! nat (getHours h t mod 10)]
       @ '':00''"
proof -
  define n where "n = nat (getHours h t)"
  have hr: "0 \<le> getHours h t" "getHours h t \<le> 23" using getHours_range [of h t] by simp_all
  then have n: "n \<le> 23" and i: "getHours h t = int n" by (simp_all add: n_def)
  have idx: "nat (getHours h t div 10) = n div 10" "nat (getHours h t mod 10) = n mod 10"
    unfolding i by (simp_all add: nat_div_distrib nat_mod_distrib)
  have ts: "toString (getHours h t) = nat_toString n"
    using hr by (simp add: toString_def n_def)
  show ?thesis
  proof (cases "n < 10")
    case True
    then have "nat_toString n = [''0123456789'' ! n]" by simp
    moreover from True have "n div 10 = 0" "n mod 10 = n" by simp_all
    ultimately show ?thesis
      by (simp add: bucket_key_def ts idx padStart2_def)
  next
    case False
    with n have "n div 10 < 10" by simp
    then have "nat_toString (n div 10) = [''0123456789'' ! (n div 10)]" by simp
    with False have "nat_toString n = [''0123456789'' ! (n div 10), ''0123456789'' ! (n mod 10)]"
      by (subst nat_toString.simps) simp
    then show ?thesis
      by (simp add: bucket_key_def ts idx padStart2_def)
  qed
qed

lemma bucket_key_Week:
  "bucket_key h Week t
     = [zhou_ri, zhou_yi, zhou_er, zhou_san, zhou_si, zhou_wu, zhou_liu] ! nat (getDay h t)"
  by (simp add: bucket_key_def days_def)

lemma ceiling_seventh: "\<lceil>(of_int d :: rat) / 7\<rceil> = (d + 6) div 7"
proof -
  define q where "q = (d + 6) div 7"
  define r where "r = (d + 6) mod 7"
  have d: "d + 6 = 7 * q + r" unfolding q_def r_def by simp
  have r: "0 \<le> r" "r \<le> 6"
  proof -
    have "r < 7" unfolding r_def by (rule pos_mod_bound) simp
    then show "r \<le> 6" by simp
    show "0 \<le> r" unfolding r_def by (rule pos_mod_sign) simp
  qed
  have "(of_int d :: rat) = 7 * of_int q + of_int r - 6"
    using d by (metis add_diff_cancel_right' of_int_add of_int_mult of_int_numeral)
  then have v: "(of_int d :: rat) / 7 = of_int q + (of_int r - 6) / 7" by simp
  have "(of_int r :: rat) \<le> 6" "(0::rat) \<le> of_int r"
    using r by simp_all
  then have "of_int q - 1 < (of_int d :: rat) / 7" "(of_int d :: rat) / 7 \<le> of_int q"
    unfolding v by simp_all
  then show ?thesis unfolding q_def [symmetric] by (simp add: ceiling_eq_iff)
qed

lemma bucket_key_Month:
  "bucket_key h Month t = toString ((getDate h t + 6) div 7) @ zhou"
  by (simp add: bucket_key_def ceiling_seventh)

lemma bucket_key_Year:
  "bucket_key h Year t = ''Q'' @ toString (getMonth h t div 3 + 1)"
proof -
  define k where "k = getMonth h t div 3"
  have fl: "\<lfloor>(of_int (getMonth h t) :: rat) / 3\<rfloor> = k"
    unfolding k_def by (metis floor_divide_of_int_eq of_int_numeral)
  have m: "0 \<le> getMonth h t" "getMonth h t \<le> 11" using getMonth_range [of h t] by simp_all
  have "getMonth h t div 3 \<le> 11 div 3" using m(2) by (rule zdiv_mono1) simp
  moreover have "0 \<le> getMonth h t div 3" using m(1) by (simp add: pos_imp_zdiv_nonneg_iff)
  ultimately have "0 \<le> k" "k \<le> 3" by (simp_all add: k_def)
  then have "k = 0 \<or> k = 1 \<or> k = 2 \<or> k = 3" by linarith
  then show ?thesis
    unfolding bucket_key_def period.case fl k_def [symmetric]
    by (elim disjE) (simp_all add: quarters_def toString_def)
qed

subsection \<open>The sums\<close>

lemma period_demo:
  "getFocusChartData demo_host period_backend ''alice'' Day
     = Inr [\<lparr>name = ''00:00'', val = 256\<rparr>, \<lparr>name = ''09:00'', val = 512\<rparr>]"
  "getFocusChartData demo_host period_backend ''alice'' Week
     = Inr [\<lparr>name = zhou_san, val = 16\<rparr>, \<lparr>name = zhou_liu, val = 32\<rparr>,
            \<lparr>name = zhou_ri, val = 64\<rparr>, \<lparr>name = zhou_yi, val = 128\<rparr>,
            \<lparr>name = zhou_er, val = 768\<rparr>]"
  "getFocusChartData demo_host period_backend ''alice'' Month
     = Inr [\<lparr>name = ''1'' @ zhou, val = 960\<rparr>]"
  "getFocusChartData demo_host period_backend ''alice'' Year
     = Inr [\<lparr>name = ''Q1'', val = 2\<rparr>, \<lparr>name = ''Q2'', val = 4\<rparr>, \<lparr>name = ''Q4'', val = 1016\<rparr>]"
  by code_simp+

lemma fixed_zone_period_start:
  assumes "LocalTZA h = fixed_zone c"
  shows "first_day h Week = localDay h (now h) - 6"
    and "period_start h p \<le> t \<longleftrightarrow> first_day h p \<le> localDay h t"
  by (simp_all add: first_day_week_fixed_zone [OF assms] period_start_def
        local_midnight_le_iff [OF assms])

text \<open>
  C7. For every period and every table of sessions, when the request succeeds each point
  that \<open>getFocusChartData\<close> returns carries the sum of the minutes of the owner's work-mode
  sessions at or after the lower time bound of the period whose completion time maps to
  the point's bucket key; every key occurs once, and the keys are exactly those some such
  session maps to, so a bucket without a session is absent. The lower bound is the local
  midnight of today, of the day six days back, of the first of the month, of the first of
  January; without daylight saving a session is at or after it exactly when its local day
  is not before that day. The key is the two-digit local hour with \<open>:00\<close> for the day, the
  weekday name for the week, the day of the month divided by 7 and rounded up for the
  month, and the quarter for the year. Four work sessions of 25 minutes at the hours 9, 9,
  14 and 20 of today, asked for the day, give 09:00 with 50, 14:00 with 25 and 20:00 with
  25; the sessions of \<open>period_backend\<close> give, per period, the sums of the sessions from
  the period's first midnight on and of no earlier one.
\<close>

theorem chart_bucket_sums:
  assumes "failing b FocusSessions = None"
  shows "(\<exists>pts. getFocusChartData h b userId p = Inr pts
           \<and> distinct (map name pts)
           \<and> set (map name pts)
               = (\<lambda>s. bucket_key h p (completed_at s)) ` set (chart_sessions h b userId p)
           \<and> (\<forall>pt \<in> set pts.
                 val pt = sum_list (map duration_minutes
                            (filter (\<lambda>s. bucket_key h p (completed_at s) = name pt)
                               (chart_sessions h b userId p)))))
       \<and> (LocalTZA h = fixed_zone c \<longrightarrow>
             first_day h Week = localDay h (now h) - 6
             \<and> (\<forall>t. period_start h p \<le> t \<longleftrightarrow> first_day h p \<le> localDay h t))
       \<and> bucket_key h Day t =
             [''0123456789'' ! nat (getHours h t div 10), ''0123456789'' ! nat (getHours h t mod 10)]
               @ '':00''
       \<and> bucket_key h Week t
             = [zhou_ri, zhou_yi, zhou_er, zhou_san, zhou_si, zhou_wu, zhou_liu] ! nat (getDay h t)
       \<and> bucket_key h Month t = toString ((getDate h t + 6) div 7) @ zhou
       \<and> bucket_key h Year t = ''Q'' @ toString (getMonth h t div 3 + 1)
       \<and> map (\<lambda>s. getHours demo_host (completed_at s)) (focus_sessions chart_backend)
           = [9, 9, 14, 20]
       \<and> map duration_minutes (focus_sessions chart_backend) = [25, 25, 25, 25]
       \<and> map mode (focus_sessions chart_backend) = [work, work, work, work]
       \<and> getFocusChartData demo_host chart_backend ''alice'' Day
           = Inr [\<lparr>name = ''09:00'', val = 50\<rparr>, \<lparr>name = ''14:00'', val = 25\<rparr>,
                  \<lparr>name = ''20:00'', val = 25\<rparr>]
       \<and> getFocusChartData demo_host period_backend ''alice'' Day
           = Inr [\<lparr>name = ''00:00'', val = 256\<rparr>, \<lparr>name = ''09:00'', val = 512\<rparr>]
       \<and> getFocusChartData demo_host period_backend ''alice'' Week
           = Inr [\<lparr>name = zhou_san, val = 16\<rparr>, \<lparr>name = zhou_liu, val = 32\<rparr>,
                  \<lparr>name = zhou_ri, val = 64\<rparr>, \<lparr>name = zhou_yi, val = 128\<rparr>,
                  \<lparr>name = zhou_er, val = 768\<rparr>]
       \<and> getFocusChartData demo_host period_backend ''alice'' Month
           = Inr [\<lparr>name = ''1'' @ zhou, val = 960\<rparr>]
       \<and> getFocusChartData demo_host period_backend ''alice'' Year
           = Inr [\<lparr>name = ''Q1'', val = 2\<rparr>, \<lparr>name = ''Q2'', val = 4\<rparr>,
                  \<lparr>name = ''Q4'', val = 1016\<rparr>]"
proof -
  let ?ss = "chart_sessions h b userId p"
  let ?key = "\<lambda>s. bucket_key h p (completed_at s)"
  let ?agg = "fold (aggregate_step h p) ?ss []"
  let ?pts = "map (\<lambda>(n, v). \<lparr>name = n, val = v\<rparr>) ?agg"
  have run: "getFocusChartData h b userId p = Inr ?pts"
    by (rule getFocusChartData_ok [OF assms])
  have keys: "map fst ?agg = new_Set (map ?key ?ss)"
    by (simp add: aggregate_keys new_Set_def)
  have names: "map name ?pts = map fst ?agg"
    by (rule chart_points_names)
  have d: "distinct (map name ?pts)"
    unfolding names keys by (rule new_Set_props)
  have s: "set (map name ?pts) = ?key ` set ?ss"
    unfolding names keys by (simp add: new_Set_props)
  have v: "val pt = sum_list (map duration_minutes (filter (\<lambda>s. ?key s = name pt) ?ss))"
    if "pt \<in> set ?pts" for pt
  proof -
    from that obtain n v where nv: "(n, v) \<in> set ?agg" and pt: "pt = \<lparr>name = n, val = v\<rparr>"
      by auto
    have "distinct (map fst ?agg)" unfolding keys by (rule new_Set_props)
    with nv have "map_of ?agg n = Some v" by simp
    then have "v = sum_list (map duration_minutes (filter (\<lambda>s. ?key s = n) ?ss))"
      by (simp add: aggregate_lookup Let_def split: if_splits)
    then show ?thesis by (simp add: pt)
  qed
  from run d s v have sums: "\<exists>pts. getFocusChartData h b userId p = Inr pts
           \<and> distinct (map name pts)
           \<and> set (map name pts) = ?key ` set ?ss
           \<and> (\<forall>pt \<in> set pts.
                 val pt = sum_list (map duration_minutes (filter (\<lambda>s. ?key s = name pt) ?ss)))"
    by blast
  have bound: "LocalTZA h = fixed_zone c \<longrightarrow>
             first_day h Week = localDay h (now h) - 6
             \<and> (\<forall>t. period_start h p \<le> t \<longleftrightarrow> first_day h p \<le> localDay h t)"
    using fixed_zone_period_start [of h c] by blast
  note keys = bucket_key_Day [of h t] bucket_key_Week [of h t] bucket_key_Month [of h t]
    bucket_key_Year [of h t]
  show ?thesis
    by (intro conjI sums bound keys chart_scenario chart_scenario_hours period_demo)
qed

theorem chart_bucket_sums_witness:
  "failing period_backend FocusSessions = None
   \<and> LocalTZA demo_host = fixed_zone 28800000
   \<and> (\<exists>pts. getFocusChartData demo_host period_backend ''alice'' Week = Inr pts
         \<and> distinct (map name pts)
         \<and> map val pts = [16, 32, 64, 128, 768])
   \<and> first_day demo_host Week = localDay demo_host (now demo_host) - 6
   \<and> bucket_key demo_host Day 1793668200000 = ''09:00''
   \<and> bucket_key demo_host Week 1793668200000 = zhou_er
   \<and> bucket_key demo_host Month 1793239200000 = ''5'' @ zhou
   \<and> bucket_key demo_host Year 1778810400000 = ''Q2''"
proof -
  have ok: "failing period_backend FocusSessions = None"
    by (simp add: period_backend_def sessions_backend_def healthy_def)
  have zone: "LocalTZA demo_host = fixed_zone 28800000"
    by (simp add: demo_host_def)
  note inst = chart_bucket_sums [OF ok, of demo_host "''alice''" Week 28800000]
  from inst [of 0]
  obtain pts where run: "getFocusChartData demo_host period_backend ''alice'' Week = Inr pts"
    and d: "distinct (map name pts)" by blast
  from run have "map val pts = [16, 32, 64, 128, 768]" by (auto simp: period_demo)
  with run d have a: "\<exists>pts. getFocusChartData demo_host period_backend ''alice'' Week = Inr pts
         \<and> distinct (map name pts) \<and> map val pts = [16, 32, 64, 128, 768]"
    by (intro exI [of _ pts] conjI)
  from inst [of 0] zone
  have w: "first_day demo_host Week = localDay demo_host (now demo_host) - 6" by blast
  have hours: "getHours demo_host 1793668200000 = 9" "getDay demo_host 1793668200000 = 2"
    "getDate demo_host 1793239200000 = 29" "getMonth demo_host 1778810400000 = 4"
    by code_simp+
  from inst [of 1793668200000] have "bucket_key demo_host Day 1793668200000 = ''09:00''"
    and "bucket_key demo_host Week 1793668200000 = zhou_er"
    by (simp_all add: hours)
  moreover from inst [of 1793239200000]
  have "bucket_key demo_host Month 1793239200000 = ''5'' @ zhou"
    by (simp add: hours toString_def)
  moreover from inst [of 1778810400000]
  have "bucket_key demo_host Year 1778810400000 = ''Q2''"
    by (simp add: hours toString_def)
  ultimately show ?thesis using ok zone a w by simp
qed

text \<open>
  C3, as the code has it. The points that \<open>getFocusChartData\<close> returns stand in the order
  in which their bucket keys first occur among the sessions the request answers with: the
  iteration order of the map they are collected in. Nothing sorts them.
\<close>

theorem chart_order_first_seen:
  assumes "failing b FocusSessions = None"
  shows "\<exists>pts. getFocusChartData h b userId p = Inr pts
           \<and> map name pts
               = new_Set (map (\<lambda>s. bucket_key h p (completed_at s)) (chart_sessions h b userId p))"
proof -
  have "map name (map (\<lambda>(n, v). \<lparr>name = n, val = v\<rparr>)
                   (fold (aggregate_step h p) (chart_sessions h b userId p) []))
          = new_Set (map (\<lambda>s. bucket_key h p (completed_at s)) (chart_sessions h b userId p))"
    by (simp only: chart_points_names aggregate_keys new_Set_def list.map)
  with getFocusChartData_ok [OF assms, of h userId p] show ?thesis by blast
qed

lemma unordered_demo:
  "getFocusChartData demo_host unordered_backend ''alice'' Day
     = Inr [\<lparr>name = ''14:00'', val = 25\<rparr>, \<lparr>name = ''09:00'', val = 25\<rparr>]"
  by code_simp

theorem chart_order_first_seen_witness:
  "failing unordered_backend FocusSessions = None
   \<and> (\<exists>pts. getFocusChartData demo_host unordered_backend ''alice'' Day = Inr pts
         \<and> map name pts = [''14:00'', ''09:00''])"
proof -
  have ok: "failing unordered_backend FocusSessions = None"
    by (simp add: unordered_backend_def sessions_backend_def healthy_def)
  from chart_order_first_seen [OF ok, of demo_host "''alice''" Day]
  obtain pts where run: "getFocusChartData demo_host unordered_backend ''alice'' Day = Inr pts"
    by blast
  from run have "map name pts = [''14:00'', ''09:00'']" by (auto simp: unordered_demo)
  with run have "\<exists>pts. getFocusChartData demo_host unordered_backend ''alice'' Day = Inr pts
         \<and> map name pts = [''14:00'', ''09:00'']"
    by (intro exI [of _ pts] conjI)
  with ok show ?thesis by (rule conjI)
qed

text \<open>
  C3 as stated fails: with the session of hour 14 stored before the session of hour 9,
  the day chart lists 14:00 before 09:00.
\<close>

theorem chart_order_counterexample:
  "map (\<lambda>s. getHours demo_host (completed_at s)) (focus_sessions unordered_backend) = [14, 9]
   \<and> getFocusChartData demo_host unordered_backend ''alice'' Day
       = Inr [\<lparr>name = ''14:00'', val = 25\<rparr>, \<lparr>name = ''09:00'', val = 25\<rparr>]"
proof -
  have "map (\<lambda>s. getHours demo_host (completed_at s)) (focus_sessions unordered_backend) = [14, 9]"
    by (simp add: unordered_backend_def sessions_backend_def mk_session_def getHours_def
          LocalTime_def demo_host_def fixed_zone_def msPerDay_def)
  then show ?thesis by (simp add: unordered_demo)
qed

section \<open>Today's focus statistics\<close>

lemma foldl_sum_minutes:
  "foldl (\<lambda>sum s. sum + duration_minutes s) a ss = a + sum_list (map duration_minutes ss)"
  by (induction ss arbitrary: a) simp_all

lemma getTodayFocusStats_ok:
  assumes "failing b FocusSessions = None"
  shows "getTodayFocusStats h b userId =
     Inr \<lparr>completedCount = length (today_sessions h b userId),
          totalMinutes = sum_list (map duration_minutes (today_sessions h b userId))\<rparr>"
  using assms
  by (simp add: getTodayFocusStats_def select_where_def today_sessions_def Let_def
        foldl_sum_minutes setHours0_local_midnight)

lemma today_sessions_work_only:
  assumes "filter (\<lambda>s. mode s = work) (focus_sessions b')
             = filter (\<lambda>s. mode s = work) (focus_sessions b)"
  shows "today_sessions h b' userId = today_sessions h b userId"
proof -
  have eq: "today_sessions h c userId
          = filter (\<lambda>s. user_id s = userId
                        \<and> completed_at s \<ge> local_midnight h (localDay h (now h)))
              (filter (\<lambda>s. mode s = work) (focus_sessions c))" for c
    by (auto simp: today_sessions_def intro: filter_cong)
  show ?thesis unfolding eq assms by (rule refl)
qed

lemma today_sessions_fixed_zone:
  assumes "LocalTZA h = fixed_zone c"
  shows "today_sessions h b userId
     = filter (\<lambda>s. user_id s = userId \<and> mode s = work
                   \<and> localDay h (now h) \<le> localDay h (completed_at s))
         (focus_sessions b)"
  by (simp add: today_sessions_def local_midnight_le_iff [OF assms])

lemma today_demo:
  "getTodayFocusStats demo_host chart_backend ''alice''
     = Inr \<lparr>completedCount = 4, totalMinutes = 100\<rparr>"
  "getTodayFocusStats demo_host period_backend ''alice''
     = Inr \<lparr>completedCount = 2, totalMinutes = 768\<rparr>"
  by code_simp+

text \<open>
  C10. When the request succeeds, \<open>getTodayFocusStats\<close> returns as \<open>completedCount\<close> the
  number of the owner's sessions of mode work completed at or after today's local midnight,
  the instant at which the local day of the clock begins, and as \<open>totalMinutes\<close> the sum of
  their minutes; without daylight saving these are the work sessions whose local day is
  today or later. Sessions of mode break have no effect: two tables with the same work
  sessions give the same result, and both numbers are 0 when the owner has only breaks
  today. Of the sessions of \<open>period_backend\<close> the two of today count, with 768 minutes;
  the one of 23:50 yesterday, the break and the other owner's session do not.
\<close>

theorem today_focus_stats:
  assumes "failing b FocusSessions = None"
  shows "getTodayFocusStats h b userId =
           Inr \<lparr>completedCount = length (today_sessions h b userId),
                totalMinutes = sum_list (map duration_minutes (today_sessions h b userId))\<rparr>
       \<and> (LocalTZA h = fixed_zone c \<longrightarrow>
             today_sessions h b userId
               = filter (\<lambda>s. user_id s = userId \<and> mode s = work
                             \<and> localDay h (now h) \<le> localDay h (completed_at s))
                   (focus_sessions b))
       \<and> (failing b' FocusSessions = None
            \<and> filter (\<lambda>s. mode s = work) (focus_sessions b')
                = filter (\<lambda>s. mode s = work) (focus_sessions b)
          \<longrightarrow> getTodayFocusStats h b' userId = getTodayFocusStats h b userId)
       \<and> ((\<forall>s \<in> set (focus_sessions b).
               user_id s = userId \<and> completed_at s \<ge> local_midnight h (localDay h (now h))
                 \<longrightarrow> mode s = break)
          \<longrightarrow> getTodayFocusStats h b userId = Inr \<lparr>completedCount = 0, totalMinutes = 0\<rparr>)
       \<and> getTodayFocusStats demo_host period_backend ''alice''
           = Inr \<lparr>completedCount = 2, totalMinutes = 768\<rparr>"
proof -
  note run = getTodayFocusStats_ok [OF assms, of h userId]
  have zone: "LocalTZA h = fixed_zone c \<longrightarrow>
             today_sessions h b userId
               = filter (\<lambda>s. user_id s = userId \<and> mode s = work
                             \<and> localDay h (now h) \<le> localDay h (completed_at s))
                   (focus_sessions b)"
    using today_sessions_fixed_zone [of h c b userId] by blast
  have same: "getTodayFocusStats h b' userId = getTodayFocusStats h b userId"
    if "failing b' FocusSessions = None"
      and "filter (\<lambda>s. mode s = work) (focus_sessions b')
             = filter (\<lambda>s. mode s = work) (focus_sessions b)"
    unfolding run getTodayFocusStats_ok [OF that(1), of h userId]
      today_sessions_work_only [OF that(2)] by (rule refl)
  have none: "getTodayFocusStats h b userId = Inr \<lparr>completedCount = 0, totalMinutes = 0\<rparr>"
    if "\<forall>s \<in> set (focus_sessions b).
          user_id s = userId \<and> completed_at s \<ge> local_midnight h (localDay h (now h))
            \<longrightarrow> mode s = break"
  proof -
    have "today_sessions h b userId = []"
      unfolding today_sessions_def filter_empty_conv using that by auto
    then show ?thesis by (simp add: run)
  qed
  from same have same': "failing b' FocusSessions = None
            \<and> filter (\<lambda>s. mode s = work) (focus_sessions b')
                = filter (\<lambda>s. mode s = work) (focus_sessions b)
          \<longrightarrow> getTodayFocusStats h b' userId = getTodayFocusStats h b userId"
    by blast
  from none have none': "(\<forall>s \<in> set (focus_sessions b).
               user_id s = userId \<and> completed_at s \<ge> local_midnight h (localDay h (now h))
                 \<longrightarrow> mode s = break)
          \<longrightarrow> getTodayFocusStats h b userId = Inr \<lparr>completedCount = 0, totalMinutes = 0\<rparr>"
    by blast
  show ?thesis
    by (intro conjI run zone same' none' today_demo(2))
qed

theorem today_focus_stats_witness:
  "failing break_backend FocusSessions = None
   \<and> getTodayFocusStats demo_host break_backend ''alice''
       = Inr \<lparr>completedCount = 0, totalMinutes = 0\<rparr>
   \<and> failing period_backend FocusSessions = None
   \<and> LocalTZA demo_host = fixed_zone 28800000
   \<and> localDay demo_host (now demo_host) = 20760
   \<and> map (\<lambda>s. localDay demo_host (completed_at s)) (today_sessions demo_host period_backend ''alice'')
       = [20760, 20760]
   \<and> map (\<lambda>s. localDay demo_host (completed_at s)) (focus_sessions period_backend)
       = [20453, 20454, 20588, 20753, 20754, 20757, 20758, 20759, 20760, 20760, 20760, 20760]
   \<and> length (today_sessions demo_host period_backend ''alice'') = 2
   \<and> sum_list (map duration_minutes (today_sessions demo_host period_backend ''alice'')) = 768"
proof -
  have ok: "failing break_backend FocusSessions = None" "failing period_backend FocusSessions = None"
    by (simp_all add: break_backend_def period_backend_def sessions_backend_def healthy_def)
  have zone: "LocalTZA demo_host = fixed_zone 28800000"
    by (simp add: demo_host_def)
  have breaks: "\<forall>s \<in> set (focus_sessions break_backend).
      user_id s = ''alice''
        \<and> completed_at s \<ge> local_midnight demo_host (localDay demo_host (now demo_host))
        \<longrightarrow> mode s = break"
    by (simp add: break_backend_def sessions_backend_def mk_session_def)
  from today_focus_stats [OF ok(1), of demo_host "''alice''" 0 break_backend] breaks
  have a: "getTodayFocusStats demo_host break_backend ''alice''
          = Inr \<lparr>completedCount = 0, totalMinutes = 0\<rparr>"
    by blast
  note inst = today_focus_stats [OF ok(2), of demo_host "''alice''" 28800000 period_backend]
  from inst zone have sel: "today_sessions demo_host period_backend ''alice''
      = filter (\<lambda>s. user_id s = ''alice'' \<and> mode s = work
                   \<and> localDay demo_host (now demo_host) \<le> localDay demo_host (completed_at s))
          (focus_sessions period_backend)"
    by blast
  have days: "map (\<lambda>s. localDay demo_host (completed_at s)) (focus_sessions period_backend)
       = [20453, 20454, 20588, 20753, 20754, 20757, 20758, 20759, 20760, 20760, 20760, 20760]"
    "localDay demo_host (now demo_host) = 20760"
    by code_simp+
  have sel_days: "map (\<lambda>s. localDay demo_host (completed_at s))
          (today_sessions demo_host period_backend ''alice'') = [20760, 20760]"
    unfolding sel by code_simp
  from inst have "getTodayFocusStats demo_host period_backend ''alice''
      = Inr \<lparr>completedCount = length (today_sessions demo_host period_backend ''alice''),
           totalMinutes = sum_list (map duration_minutes
                            (today_sessions demo_host period_backend ''alice''))\<rparr>"
    by blast
  then have n: "length (today_sessions demo_host period_backend ''alice'') = 2"
    "sum_list (map duration_minutes (today_sessions demo_host period_backend ''alice'')) = 768"
    by (simp_all add: today_demo)
  from ok zone a days sel_days n show ?thesis by simp
qed

section \<open>The default chart of the statistics page\<close>

lemma weekday_labels_distinct: "distinct days"
  by (simp add: days_def zhou_ri_def zhou_yi_def zhou_er_def zhou_san_def zhou_si_def
        zhou_wu_def zhou_liu_def)

lemma bucket_key_Week_in_days: "bucket_key h Week t \<in> set days"
  unfolding bucket_key_def period.case by (rule nth_mem) (rule weekday_index_in_range)

lemma bucket_key_Year_in_quarters: "bucket_key h Year t \<in> set quarters"
  unfolding bucket_key_def period.case by (rule nth_mem) (rule quarter_index_in_range)

text \<open>Every weekday label is the bucket key of some instant.\<close>

lemma days_attained:
  "bucket_key \<lparr>now = 0, LocalTZA = fixed_zone 0\<rparr> Week (int i * 86400000) = days ! ((i + 4) mod 7)"
proof -
  have "int i * 86400000 div 86400000 = int i" by simp
  then have "getDay \<lparr>now = 0, LocalTZA = fixed_zone 0\<rparr> (int i * 86400000) = (int i + 4) mod 7"
    by (simp add: getDay_def localDay_def LocalTime_def fixed_zone_def msPerDay_def)
  then show ?thesis
    by (simp add: bucket_key_def nat_mod_distrib nat_add_distrib)
qed

text \<open>
  C8, as the code has it. For an empty chart the page shows \<open>getDefaultChartData\<close> of the
  period, and every point of it has the value 0. For the week its names are the seven
  weekday labels, Monday first and Sunday last, each once, and every bucket key of the week
  is among them; for the year its names are Q1 to Q4, and every bucket key of the year is
  among them. For the day it has the five points 00:00, 06:00, 12:00, 18:00 and 23:59, and
  for the month the four points of the weeks 1 to 4.
\<close>

theorem default_chart_template:
  "displayed_chart [] p = getDefaultChartData p
   \<and> (\<forall>pt \<in> set (getDefaultChartData p). val pt = 0)
   \<and> map name (getDefaultChartData Week)
       = [zhou_yi, zhou_er, zhou_san, zhou_si, zhou_wu, zhou_liu, zhou_ri]
   \<and> set (map name (getDefaultChartData Week)) = set days
   \<and> distinct (map name (getDefaultChartData Week))
   \<and> bucket_key h Week t \<in> set (map name (getDefaultChartData Week))
   \<and> map name (getDefaultChartData Year) = quarters
   \<and> distinct (map name (getDefaultChartData Year))
   \<and> bucket_key h Year t \<in> set (map name (getDefaultChartData Year))
   \<and> map name (getDefaultChartData Day) = [''00:00'', ''06:00'', ''12:00'', ''18:00'', ''23:59'']
   \<and> map name (getDefaultChartData Month) = [''1'' @ zhou, ''2'' @ zhou, ''3'' @ zhou, ''4'' @ zhou]"
proof -
  have names: "map name (zero_points ns) = ns" for ns
    by (simp add: zero_points_def comp_def)
  have zero: "\<forall>pt \<in> set (getDefaultChartData p). val pt = 0"
    by (cases p) (auto simp: getDefaultChartData_def zero_points_def)
  have week: "map name (getDefaultChartData Week)
       = [zhou_yi, zhou_er, zhou_san, zhou_si, zhou_wu, zhou_liu, zhou_ri]"
    by (simp add: getDefaultChartData_def names)
  have wset: "set (map name (getDefaultChartData Week)) = set days"
    unfolding week by (auto simp: days_def)
  have wd: "distinct (map name (getDefaultChartData Week))"
    using weekday_labels_distinct unfolding week days_def by auto
  have year: "map name (getDefaultChartData Year) = quarters"
    by (simp add: getDefaultChartData_def names quarters_def)
  have yd: "distinct (map name (getDefaultChartData Year))"
    unfolding year by (simp add: quarters_def)
  have day: "map name (getDefaultChartData Day)
       = [''00:00'', ''06:00'', ''12:00'', ''18:00'', ''23:59'']"
    by (simp add: getDefaultChartData_def)
  have month: "map name (getDefaultChartData Month)
       = [''1'' @ zhou, ''2'' @ zhou, ''3'' @ zhou, ''4'' @ zhou]"
    by (simp add: getDefaultChartData_def names)
  have shown: "displayed_chart [] p = getDefaultChartData p"
    by (simp add: displayed_chart_def)
  have wk: "bucket_key h Week t \<in> set (map name (getDefaultChartData Week))"
    unfolding wset by (rule bucket_key_Week_in_days)
  have yk: "bucket_key h Year t \<in> set (map name (getDefaultChartData Year))"
    unfolding year by (rule bucket_key_Year_in_quarters)
  from shown zero week wset wd wk year yd yk day month show ?thesis by blast
qed

theorem default_chart_template_witness:
  "length (displayed_chart [] Week) = 7 \<and> val (hd (getDefaultChartData Week)) = 0
   \<and> length (displayed_chart [] Year) = 4"
proof -
  have m: "hd (getDefaultChartData Week) \<in> set (getDefaultChartData Week)"
    by (simp add: getDefaultChartData_def zero_points_def)
  from default_chart_template [of Week demo_host 0] m
  have v: "val (hd (getDefaultChartData Week)) = 0"
    and w: "displayed_chart [] Week = getDefaultChartData Week" by blast+
  from default_chart_template [of Year demo_host 0]
  have y: "displayed_chart [] Year = getDefaultChartData Year" by blast
  have "length (getDefaultChartData Week) = 7" "length (getDefaultChartData Year) = 4"
    by (simp_all add: getDefaultChartData_def zero_points_def)
  with v w y show ?thesis by simp
qed

lemma empty_chart: "getFocusChartData demo_host empty_backend ''alice'' p = Inr []"
  by (simp add: getFocusChartData_def select_where_def empty_backend_def sessions_backend_def
        healthy_def)

text \<open>
  C8 as stated fails for the day and for the month: the chart of an empty table is empty,
  09:00 is the bucket key of a session at 09:10 and the fifth week the bucket key of a
  session on the 29th, and the default chart has a point for neither.
\<close>

theorem default_chart_counterexample:
  "getFocusChartData demo_host empty_backend ''alice'' Day = Inr []
   \<and> bucket_key demo_host Day 1793668200000 = ''09:00''
   \<and> ''09:00'' \<notin> set (map name (displayed_chart [] Day))
   \<and> getFocusChartData demo_host empty_backend ''alice'' Month = Inr []
   \<and> bucket_key demo_host Month 1793239200000 = ''5'' @ zhou
   \<and> ''5'' @ zhou \<notin> set (map name (displayed_chart [] Month))"
proof -
  have a: "bucket_key demo_host Day 1793668200000 = ''09:00''"
    by code_simp
  have b: "''09:00'' \<notin> set (map name (displayed_chart [] Day))"
    by (simp add: displayed_chart_def getDefaultChartData_def)
  have c: "bucket_key demo_host Month 1793239200000 = ''5'' @ zhou"
    by code_simp
  have d: "''5'' @ zhou \<notin> set (map name (displayed_chart [] Month))"
    by (simp add: displayed_chart_def getDefaultChartData_def zero_points_def)
  from a b c d empty_chart show ?thesis by simp
qed

section \<open>Rounding to a double\<close>

lemma pow2_powi: "pow2 e = 2 powi e"
  by (simp add: pow2_def power_int_def inverse_eq_divide power_one_over)

lemma floor_log2_bounds:
  assumes "0 < x"
  shows "pow2 (floor_log2 x) \<le> x \<and> x < pow2 (floor_log2 x + 1)"
proof -
  obtain p q where pq: "quotient_of x = (p, q)" by (cases "quotient_of x")
  then have q: "0 < q" and x: "x = of_int p / of_int q"
    by (simp_all add: quotient_of_denom_pos quotient_of_div)
  from assms x q have p: "0 < p" by (simp add: zero_less_divide_iff)
  define bp where "bp = bitlen p"
  define bq where "bq = bitlen q"
  have bp: "2 ^ nat (bp - 1) \<le> p" "p < 2 ^ nat bp" and bq: "2 ^ nat (bq - 1) \<le> q" "q < 2 ^ nat bq"
    using bitlen_bounds [OF p] bitlen_bounds [OF q] by (simp_all add: bp_def bq_def)
  have pos: "1 \<le> bp" "1 \<le> bq"
    using p q by (simp_all add: bp_def bq_def bitlen_alt_def)
  have P: "(2::rat) powi (bp - 1) \<le> of_int p" "of_int p < (2::rat) powi bp"
  proof -
    have "(of_int (2 ^ nat (bp - 1)) :: rat) \<le> of_int p" using bp(1) by (simp only: of_int_le_iff)
    then show "(2::rat) powi (bp - 1) \<le> of_int p" using pos by (simp add: power_int_def)
    have "(of_int p :: rat) < of_int (2 ^ nat bp)" using bp(2) by (simp only: of_int_less_iff)
    then show "of_int p < (2::rat) powi bp" using pos by (simp add: power_int_def)
  qed
  have Q: "(2::rat) powi (bq - 1) \<le> of_int q" "of_int q < (2::rat) powi bq"
  proof -
    have "(of_int (2 ^ nat (bq - 1)) :: rat) \<le> of_int q" using bq(1) by (simp only: of_int_le_iff)
    then show "(2::rat) powi (bq - 1) \<le> of_int q" using pos by (simp add: power_int_def)
    have "(of_int q :: rat) < of_int (2 ^ nat bq)" using bq(2) by (simp only: of_int_less_iff)
    then show "of_int q < (2::rat) powi bq" using pos by (simp add: power_int_def)
  qed
  have qpos: "(0::rat) < of_int q" using q by simp
  have upper: "x < 2 powi (bp - bq + 1)"
  proof -
    have "x * of_int q = of_int p" using qpos by (simp add: x)
    also have "\<dots> < 2 powi bp" by (rule P)
    also have "\<dots> = 2 powi (bp - bq + 1) * 2 powi (bq - 1)"
      by (simp add: power_int_add [symmetric])
    also have "\<dots> \<le> 2 powi (bp - bq + 1) * of_int q"
      by (rule mult_left_mono [OF Q(1)]) simp
    finally show ?thesis using qpos by simp
  qed
  have lower: "2 powi (bp - bq - 1) < x"
  proof -
    have "(2::rat) powi (bp - bq - 1) * of_int q < 2 powi (bp - bq - 1) * 2 powi bq"
      by (rule mult_strict_left_mono [OF Q(2)]) simp
    also have "\<dots> = 2 powi (bp - 1)"
      by (simp add: power_int_add [symmetric])
    also have "\<dots> \<le> of_int p" by (rule P)
    also have "\<dots> = x * of_int q" using qpos by (simp add: x)
    finally show ?thesis using qpos by simp
  qed
  have fl: "floor_log2 x = (if 2 powi (bp - bq) \<le> x then bp - bq else bp - bq - 1)"
    by (simp add: floor_log2_def pq bp_def bq_def pow2_powi Let_def)
  show ?thesis
  proof (cases "2 powi (bp - bq) \<le> x")
    case True
    then show ?thesis using upper by (simp add: fl pow2_powi)
  next
    case False
    then have "x < 2 powi (bp - bq)" by simp
    then show ?thesis using lower False by (simp add: fl pow2_powi)
  qed
qed

text \<open>The doubles nearest to 0.1, 3, 0.145 and -1/3.\<close>

lemma double_examples:
  "to_double (1 / 10) = 3602879701896397 / 36028797018963968"
  "to_double 3 = 3"
  "to_double (29 / 200) = 5224175567749775 / 36028797018963968"
  "to_double (- (1 / 3)) = - (6004799503160661 / 18014398509481984)"
  by code_simp+


lemma round_half_even_near: "\<bar>of_int (round_half_even q) - q\<bar> \<le> 1 / 2"
proof -
  have "of_int \<lfloor>q\<rfloor> \<le> q" "q < of_int \<lfloor>q\<rfloor> + 1" by linarith+
  then show ?thesis by (auto simp: round_half_even_def Let_def)
qed

text \<open>
  \<open>to_double\<close> returns a number with a significand of 53 bits at the exponent of its
  argument (or the next power of two), at most half a unit in the last place away.
\<close>

lemma to_double_nearest:
  assumes pos: "0 < x"
  defines "ulp \<equiv> pow2 (floor_log2 x - 52)"
  shows "\<exists>m. to_double x = of_int m * ulp \<and> 2 ^ 52 \<le> m \<and> m \<le> 2 ^ 53
           \<and> \<bar>to_double x - x\<bar> \<le> ulp / 2"
proof -
  define m where "m = round_half_even (x / ulp)"
  have ulp_pos: "0 < ulp" by (simp add: ulp_def pow2_powi)
  have split: "pow2 (floor_log2 x) = 2 ^ 52 * ulp" "pow2 (floor_log2 x + 1) = 2 ^ 53 * ulp"
    unfolding ulp_def pow2_powi
    using power_int_add [of "2::rat" 52 "floor_log2 x - 52"]
      power_int_add [of "2::rat" 53 "floor_log2 x - 52"] by (simp_all add: add.commute)
  from floor_log2_bounds [OF pos] have "2 ^ 52 * ulp \<le> x" "x < 2 ^ 53 * ulp"
    unfolding split by simp_all
  then have q: "2 ^ 52 \<le> x / ulp" "x / ulp < 2 ^ 53"
    using ulp_pos by (simp_all add: pos_le_divide_eq pos_divide_less_eq)
  have near: "\<bar>of_int m - x / ulp\<bar> \<le> 1 / 2"
    unfolding m_def by (rule round_half_even_near)
  have q': "(4503599627370496::rat) \<le> x / ulp" "x / ulp < (9007199254740992::rat)"
    using q by simp_all
  have "(4503599627370495::rat) < of_int m" "(of_int m :: rat) < 9007199254740993"
    using q' near by linarith+
  then have "(of_int 4503599627370495 :: rat) < of_int m"
    "(of_int m :: rat) < of_int 9007199254740993"
    by simp_all
  then have "4503599627370495 < m" "m < 9007199254740993"
    by (simp_all only: of_int_less_iff)
  then have lo: "2 ^ 52 \<le> m" and hi: "m \<le> 2 ^ 53"
    by simp_all
  have val: "to_double x = of_int m * ulp"
    using pos by (simp add: to_double_def Let_def m_def ulp_def)
  have "to_double x - x = (of_int m - x / ulp) * ulp"
    using ulp_pos by (simp add: val left_diff_distrib)
  then have "\<bar>to_double x - x\<bar> = \<bar>of_int m - x / ulp\<bar> * ulp"
    using ulp_pos by (simp add: abs_mult)
  also have "\<dots> \<le> (1 / 2) * ulp"
    using near ulp_pos by (simp only: mult_right_mono less_imp_le)
  finally have "\<bar>to_double x - x\<bar> \<le> ulp / 2" by simp
  with val lo hi show ?thesis by blast
qed

text \<open>The relative error of one rounding is at most \<open>2 ^ - 53\<close>.\<close>

lemma to_double_rel:
  assumes pos: "0 < x"
  shows "0 < to_double x" and "\<bar>to_double x - x\<bar> * 9007199254740992 \<le> x"
proof -
  define ulp where "ulp = pow2 (floor_log2 x - 52)"
  from to_double_nearest [OF pos]
  obtain m where val: "to_double x = of_int m * ulp" and lo: "2 ^ 52 \<le> m"
    and near: "\<bar>to_double x - x\<bar> \<le> ulp / 2"
    unfolding ulp_def by blast
  have ulp_pos: "0 < ulp" by (simp add: ulp_def pow2_powi)
  from lo have "0 < m" by simp
  then have "(0::rat) < of_int m" by simp
  then show "0 < to_double x" unfolding val using ulp_pos by (rule mult_pos_pos)
  have "pow2 (floor_log2 x) = 2 ^ 52 * ulp"
    unfolding ulp_def pow2_powi
    using power_int_add [of "2::rat" 52 "floor_log2 x - 52"] by (simp add: add.commute)
  with floor_log2_bounds [OF pos] have "2 ^ 52 * ulp \<le> x" by simp
  then have "4503599627370496 * ulp \<le> x" by simp
  moreover from near have "\<bar>to_double x - x\<bar> * 9007199254740992 \<le> ulp / 2 * 9007199254740992"
    by (rule mult_right_mono) simp
  ultimately show "\<bar>to_double x - x\<bar> * 9007199254740992 \<le> x" by simp
qed

lemma Math_round_near: "\<bar>of_int (Math_round p) - p\<bar> \<le> 1 / 2"
  unfolding Math_round_def by linarith

text \<open>
  The rate of the source, \<open>Math.round((completed / total) * 100)\<close> with two roundings to a
  double before the rounding to an integer, against the exact percentage.
\<close>

lemma rate_deviation:
  assumes "0 < t"
  shows "\<bar>of_int (Math_round (fmul (fdiv (of_nat c) (of_int t)) 100)) - exact_percent c t\<bar>
           \<le> 1 / 2 + exact_percent c t / 2 ^ 51"
proof (cases "c = 0")
  case True
  have "\<lfloor>(1::rat) / 2\<rfloor> = 0" by (rule floor_unique) simp_all
  with True show ?thesis
    by (simp add: fdiv_def fmul_def to_double_def Math_round_def exact_percent_def)
next
  case False
  define y :: rat where "y = of_nat c / of_int t"
  define q where "q = to_double y"
  define p where "p = to_double (q * 100)"
  from False assms have y: "0 < y" by (simp add: y_def)
  from to_double_rel [OF y] have q: "0 < q" "\<bar>q - y\<bar> * 9007199254740992 \<le> y"
    by (simp_all add: q_def)
  then have q100: "0 < q * 100" by simp
  from to_double_rel [OF q100] have p: "\<bar>p - q * 100\<bar> * 9007199254740992 \<le> q * 100"
    by (simp add: p_def)
  have r: "\<bar>of_int (Math_round p) - p\<bar> \<le> 1 / 2" by (rule Math_round_near)
  have x: "exact_percent c t = y * 100" by (simp add: exact_percent_def y_def)
  have code: "fmul (fdiv (of_nat c) (of_int t)) 100 = p"
    by (simp add: fmul_def fdiv_def p_def q_def y_def)
  define A where "A = \<bar>q - y\<bar>"
  define B where "B = \<bar>p - q * 100\<bar>"
  define C where "C = \<bar>of_int (Math_round p) - p\<bar>"
  define D where "D = \<bar>of_int (Math_round p) - y * 100\<bar>"
  have "of_int (Math_round p) - y * 100
          = (of_int (Math_round p) - p) + ((p - q * 100) + (q - y) * 100)"
    by (simp add: algebra_simps)
  also have "\<bar>\<dots>\<bar> \<le> C + \<bar>(p - q * 100) + (q - y) * 100\<bar>"
    unfolding C_def by (rule abs_triangle_ineq)
  also have "\<bar>(p - q * 100) + (q - y) * 100\<bar> \<le> B + \<bar>(q - y) * 100\<bar>"
    unfolding B_def by (rule abs_triangle_ineq)
  also have "\<bar>(q - y) * 100\<bar> = A * 100"
    unfolding A_def by (simp only: abs_mult abs_numeral)
  finally have tri: "D \<le> C + B + A * 100"
    unfolding D_def by simp
  have qy: "q \<le> y + A"
    unfolding A_def by linarith
  have bounds: "A * 9007199254740992 \<le> y" "B * 9007199254740992 \<le> q * 100" "C \<le> 1 / 2"
    using q(2) p r unfolding A_def B_def C_def by simp_all
  define k where "k = y * 100 / 2251799813685248"
  have k: "k * 2251799813685248 = y * 100" by (simp add: k_def)
  from tri qy bounds y k have "D \<le> 1 / 2 + k" by linarith
  then have "\<bar>of_int (Math_round p) - y * 100\<bar> \<le> 1 / 2 + y * 100 / 2251799813685248"
    unfolding D_def k_def .
  then show ?thesis unfolding code x by simp
qed

lemma rate_within_one:
  assumes "0 < t" and "exact_percent c t \<le> 2 ^ 50"
  shows "\<bar>Math_round (fmul (fdiv (of_nat c) (of_int t)) 100) - Math_round (exact_percent c t)\<bar> \<le> 1"
proof -
  define x where "x = exact_percent c t"
  define a where "a = Math_round (fmul (fdiv (of_nat c) (of_int t)) 100)"
  define e where "e = Math_round x"
  have "\<bar>of_int a - x\<bar> \<le> 1 / 2 + x / 2 ^ 51"
    unfolding a_def x_def by (rule rate_deviation [OF assms(1)])
  then have d: "\<bar>of_int a - x\<bar> \<le> 1 / 2 + x / 2251799813685248" by simp
  from assms(2) have le: "x \<le> 1125899906842624" by (simp add: x_def)
  have n: "\<bar>of_int e - x\<bar> \<le> 1 / 2" unfolding e_def by (rule Math_round_near)
  define k where "k = x / 2251799813685248"
  from le have k: "k \<le> 1 / 2" by (simp add: k_def)
  from d have d': "\<bar>of_int a - x\<bar> \<le> 1 / 2 + k" by (simp only: k_def)
  from d' k n have "\<bar>(of_int a :: rat) - of_int e\<bar> < 2" by linarith
  then have "\<bar>(of_int (a - e) :: rat)\<bar> < of_int 2" by simp
  then have "(of_int \<bar>a - e\<bar> :: rat) < of_int 2" by (simp only: of_int_abs)
  then have "\<bar>a - e\<bar> < 2" by (simp only: of_int_less_iff)
  then show ?thesis unfolding a_def e_def x_def by simp
qed

section \<open>Monthly completion rate\<close>

lemma getMonthlyStats_ok:
  assumes "failing b HabitLogs = None"
  shows "\<exists>r. getMonthlyStats h b userId = Inr r
     \<and> total r = int (habit_count b userId) * getDate h (now h)
     \<and> rate r = (if total r > 0
                  then Math_round (fmul (fdiv (of_nat (completed r)) (of_int (total r))) 100)
                  else 0)"
proof (cases "failing b Tasks")
  case None
  with assms show ?thesis
    by (simp add: getMonthlyStats_def select_where_def habit_count_def Let_def)
next
  case (Some msg)
  with assms show ?thesis
    by (simp add: getMonthlyStats_def select_where_def habit_count_def Let_def)
qed

lemma monthly_demo:
  "getMonthlyStats demo_host monthly_backend ''alice''
     = Inr \<lparr>completed = 8, total = 6, rate = 133\<rparr>"
  "getMonthlyStats eighth_host rate_backend ''alice''
     = Inr \<lparr>completed = 23, total = 40, rate = 57\<rparr>"
  by code_simp+

text \<open>
  The rounding is that of the doubles: 23 completions of 40 expected give the double below
  57.5 and the rate 57, and 29 of 200 the double below 14.5 and the rate 14, where the
  exact percentages 57.5 and 14.5 round to 58 and 15.
\<close>

lemma double_rate_example:
  "fmul (fdiv 23 40) 100 = 8092405580431359 / 140737488355328"
  "fmul (fdiv 23 40) 100 < 115 / 2"
  "Math_round (fmul (fdiv 23 40) 100) = 57"
  "Math_round (fmul (fdiv 29 200) 100) = 14"
  "Math_round (29 / 200 * 100) = 15"
  by code_simp+

lemma exact_rate_example:
  "exact_percent 23 40 = 115 / 2"
  "Math_round (exact_percent 23 40) = 58"
  "round_half_even (exact_percent 23 40) = 58"
  "Math_round (115 / 2) = 58"
  by code_simp+

text \<open>
  C6 as stated fails: on the 8th of a month with five tasks, the total is 40, and with 23
  completions the code returns the rate 57, while 23 / 40 \<times> 100 = 57.5 rounds to 58
  (a tie going up as well as a tie going to the even number).
\<close>

theorem monthly_rate_counterexample:
  "getMonthlyStats eighth_host rate_backend ''alice''
     = Inr \<lparr>completed = 23, total = 40, rate = 57\<rparr>
   \<and> exact_percent 23 40 = 115 / 2
   \<and> Math_round (exact_percent 23 40) = 58
   \<and> round_half_even (exact_percent 23 40) = 58"
  by (intro conjI monthly_demo(2) exact_rate_example(1,2,3))

text \<open>
  C6, amended. When the request for the logs succeeds, \<open>getMonthlyStats\<close> returns a result,
  never an error of division: its total is the number of the owner's tasks times the day of
  the month, which is at least 1; when the total is positive its rate is \<open>Math.round\<close> of
  the completed count divided by the total and multiplied by 100 in double arithmetic,
  which is at most 1/2 + x / 2^51 away from the exact percentage x and, for x up to 2^50,
  at most 1 away from the rounded exact percentage; the rate is 0 when the total is 0
  (no task). Nothing bounds the rate by 100: two tasks on the third day of the month with
  8 counted completions give the total 6 and the rate 133. The rate differs from the
  rounded exact percentage at 23 completions of 40: 57, not 58.
\<close>

theorem monthly_stats_rate:
  assumes "failing b HabitLogs = None"
  shows "(\<exists>r. getMonthlyStats h b userId = Inr r
           \<and> total r = int (habit_count b userId) * getDate h (now h)
           \<and> (total r > 0 \<longrightarrow>
                rate r = Math_round (fmul (fdiv (of_nat (completed r)) (of_int (total r))) 100))
           \<and> (total r > 0 \<longrightarrow>
                \<bar>of_int (rate r) - exact_percent (completed r) (total r)\<bar>
                  \<le> 1 / 2 + exact_percent (completed r) (total r) / 2 ^ 51)
           \<and> (total r > 0 \<and> exact_percent (completed r) (total r) \<le> 2 ^ 50 \<longrightarrow>
                \<bar>rate r - Math_round (exact_percent (completed r) (total r))\<bar> \<le> 1)
           \<and> (total r = 0 \<longrightarrow> rate r = 0)
           \<and> (habit_count b userId = 0 \<longrightarrow> rate r = 0))
       \<and> 1 \<le> getDate h (now h)
       \<and> getMonthlyStats demo_host monthly_backend ''alice''
           = Inr \<lparr>completed = 8, total = 6, rate = 133\<rparr>
       \<and> getMonthlyStats eighth_host rate_backend ''alice''
           = Inr \<lparr>completed = 23, total = 40, rate = 57\<rparr>
       \<and> Math_round (exact_percent 23 40) = 58"
proof -
  from getMonthlyStats_ok [OF assms, of h userId]
  obtain r where run: "getMonthlyStats h b userId = Inr r"
    and t: "total r = int (habit_count b userId) * getDate h (now h)"
    and q: "rate r = (if total r > 0
                  then Math_round (fmul (fdiv (of_nat (completed r)) (of_int (total r))) 100)
                  else 0)"
    by blast
  have code: "total r > 0 \<longrightarrow>
      rate r = Math_round (fmul (fdiv (of_nat (completed r)) (of_int (total r))) 100)"
    using q by simp
  have dev: "total r > 0 \<longrightarrow>
      \<bar>of_int (rate r) - exact_percent (completed r) (total r)\<bar>
        \<le> 1 / 2 + exact_percent (completed r) (total r) / 2 ^ 51"
  proof
    assume pos: "total r > 0"
    with q have "rate r = Math_round (fmul (fdiv (of_nat (completed r)) (of_int (total r))) 100)"
      by simp
    then show "\<bar>of_int (rate r) - exact_percent (completed r) (total r)\<bar>
        \<le> 1 / 2 + exact_percent (completed r) (total r) / 2 ^ 51"
      using rate_deviation [OF pos, of "completed r"] by simp
  qed
  have one: "total r > 0 \<and> exact_percent (completed r) (total r) \<le> 2 ^ 50 \<longrightarrow>
      \<bar>rate r - Math_round (exact_percent (completed r) (total r))\<bar> \<le> 1"
  proof
    assume a: "total r > 0 \<and> exact_percent (completed r) (total r) \<le> 2 ^ 50"
    with q have "rate r = Math_round (fmul (fdiv (of_nat (completed r)) (of_int (total r))) 100)"
      by simp
    then show "\<bar>rate r - Math_round (exact_percent (completed r) (total r))\<bar> \<le> 1"
      using rate_within_one [of "total r" "completed r"] a by simp
  qed
  have zero: "total r = 0 \<longrightarrow> rate r = 0" using q by simp
  have none: "habit_count b userId = 0 \<longrightarrow> rate r = 0" using q t by simp
  have "getMonthlyStats h b userId = Inr r
           \<and> total r = int (habit_count b userId) * getDate h (now h)
           \<and> (total r > 0 \<longrightarrow>
                rate r = Math_round (fmul (fdiv (of_nat (completed r)) (of_int (total r))) 100))
           \<and> (total r > 0 \<longrightarrow>
                \<bar>of_int (rate r) - exact_percent (completed r) (total r)\<bar>
                  \<le> 1 / 2 + exact_percent (completed r) (total r) / 2 ^ 51)
           \<and> (total r > 0 \<and> exact_percent (completed r) (total r) \<le> 2 ^ 50 \<longrightarrow>
                \<bar>rate r - Math_round (exact_percent (completed r) (total r))\<bar> \<le> 1)
           \<and> (total r = 0 \<longrightarrow> rate r = 0)
           \<and> (habit_count b userId = 0 \<longrightarrow> rate r = 0)"
    by (intro conjI run t code dev one zero none)
  then have ex: "\<exists>r. getMonthlyStats h b userId = Inr r
           \<and> total r = int (habit_count b userId) * getDate h (now h)
           \<and> (total r > 0 \<longrightarrow>
                rate r = Math_round (fmul (fdiv (of_nat (completed r)) (of_int (total r))) 100))
           \<and> (total r > 0 \<longrightarrow>
                \<bar>of_int (rate r) - exact_percent (completed r) (total r)\<bar>
                  \<le> 1 / 2 + exact_percent (completed r) (total r) / 2 ^ 51)
           \<and> (total r > 0 \<and> exact_percent (completed r) (total r) \<le> 2 ^ 50 \<longrightarrow>
                \<bar>rate r - Math_round (exact_percent (completed r) (total r))\<bar> \<le> 1)
           \<and> (total r = 0 \<longrightarrow> rate r = 0)
           \<and> (habit_count b userId = 0 \<longrightarrow> rate r = 0)"
    by (rule exI)
  have day: "1 \<le> getDate h (now h)" using getDate_range [of h "now h"] by simp
  show ?thesis
    by (intro conjI ex day monthly_demo exact_rate_example(2))
qed

theorem monthly_stats_rate_witness:
  "failing monthly_backend HabitLogs = None
   \<and> (\<exists>r. getMonthlyStats demo_host monthly_backend ''alice'' = Inr r
         \<and> total r = 6 \<and> int (completed r) > total r \<and> rate r > 100)
   \<and> failing old_backend HabitLogs = None
   \<and> (\<exists>r. getMonthlyStats demo_host old_backend ''alice'' = Inr r \<and> total r = 0 \<and> rate r = 0)
   \<and> failing rate_backend HabitLogs = None
   \<and> habit_count rate_backend ''alice'' = 5
   \<and> getDate eighth_host (now eighth_host) = 8
   \<and> (\<exists>r. getMonthlyStats eighth_host rate_backend ''alice'' = Inr r
         \<and> total r = 40 \<and> rate r = 57
         \<and> exact_percent (completed r) (total r) = 115 / 2
         \<and> \<bar>of_int (rate r) - exact_percent (completed r) (total r)\<bar> = 1 / 2
         \<and> \<bar>rate r - Math_round (exact_percent (completed r) (total r))\<bar> = 1)"
proof -
  have ok: "failing monthly_backend HabitLogs = None" "failing old_backend HabitLogs = None"
    "failing rate_backend HabitLogs = None"
    by (simp_all add: monthly_backend_def old_backend_def rate_backend_def logs_backend_def
          healthy_def)
  from monthly_stats_rate [OF ok(1), of demo_host "''alice''"]
  obtain r where r: "getMonthlyStats demo_host monthly_backend ''alice'' = Inr r" by blast
  then have r': "r = \<lparr>completed = 8, total = 6, rate = 133\<rparr>" by (simp add: monthly_demo)
  have a: "\<exists>r. getMonthlyStats demo_host monthly_backend ''alice'' = Inr r
         \<and> total r = 6 \<and> int (completed r) > total r \<and> rate r > 100"
    using r r' by (intro exI [of _ r]) simp
  have none: "habit_count old_backend ''alice'' = 0"
    by (simp add: habit_count_def old_backend_def logs_backend_def healthy_def)
  from monthly_stats_rate [OF ok(2), of demo_host "''alice''"] none
  obtain r0 where "getMonthlyStats demo_host old_backend ''alice'' = Inr r0"
    "total r0 = 0" "rate r0 = 0" by auto
  then have b: "\<exists>r. getMonthlyStats demo_host old_backend ''alice'' = Inr r \<and> total r = 0 \<and> rate r = 0"
    by blast
  have five: "habit_count rate_backend ''alice'' = 5" "getDate eighth_host (now eighth_host) = 8"
    by code_simp+
  from monthly_stats_rate [OF ok(3), of eighth_host "''alice''"]
  obtain r1 where r1: "getMonthlyStats eighth_host rate_backend ''alice'' = Inr r1"
    and t1: "total r1 = int (habit_count rate_backend ''alice'') * getDate eighth_host (now eighth_host)"
    and d1: "total r1 > 0 \<longrightarrow>
                \<bar>of_int (rate r1) - exact_percent (completed r1) (total r1)\<bar>
                  \<le> 1 / 2 + exact_percent (completed r1) (total r1) / 2 ^ 51"
    by blast
  from r1 have r1': "r1 = \<lparr>completed = 23, total = 40, rate = 57\<rparr>" by (simp add: monthly_demo)
  have c: "\<exists>r. getMonthlyStats eighth_host rate_backend ''alice'' = Inr r
         \<and> total r = 40 \<and> rate r = 57
         \<and> exact_percent (completed r) (total r) = 115 / 2
         \<and> \<bar>of_int (rate r) - exact_percent (completed r) (total r)\<bar> = 1 / 2
         \<and> \<bar>rate r - Math_round (exact_percent (completed r) (total r))\<bar> = 1"
    using r1 r1' by (intro exI [of _ r1]) (simp add: exact_rate_example)
  from ok a b five c show ?thesis by simp
qed

section \<open>Owner scoping\<close>




end
